theory Spec2Isabelle
  imports Main "HOL-Library.Sublist" "HOL-Library.AList"
begin

section \<open>The Drive search and combine application (\<open>app.py\<close>)\<close>

text \<open>
  The program is a Streamlit page over the PyDrive2, requests and pandas libraries. Its own
  logic is embedded here function by function, under the names of the source:
  \<open>authenticate_drive\<close>, \<open>get_root_folders\<close>, \<open>find_files\<close> with its nested
  \<open>recursive_search\<close>, \<open>load_excel_files\<close>, \<open>load_data\<close> and \<open>main\<close>.

  What the libraries and the outside world do is data of the model:
  \<^item> the Drive account is a finite list of file resources (\<open>files\<close>), and
    \<open>drive.ListFile({'q': query}).GetList()\<close> filters it by the two queries the program
    builds (\<open>ListFile\<close>);
  \<^item> the credential files, the OAuth flow, \<open>requests.get\<close> and \<open>pd.read_excel\<close> are
    fields of \<open>auth_world\<close> and \<open>env\<close>; a call that may raise returns \<open>exn + 'a\<close>;
  \<^item> \<open>pd.concat(dfs, ignore_index=True)\<close> is written out (\<open>pd_concat\<close>) as far as the
    program depends on it: it raises \<open>ValueError\<close> on an empty list, takes the rows in
    order, brings each to the combined columns and numbers them from 0; the dtype of a
    combined column and the conversion of a cell to it are pandas' own and stay parameters;
  \<^item> the calls that render the dataset (\<open>st.dataframe\<close>, \<open>describe\<close>, the plotting calls,
    \<open>to_csv\<close> and \<open>to_excel\<close>) are fields of \<open>env\<close> that may raise; the page does not
    catch what they raise;
  \<^item> effects are threaded through a \<open>state\<close>: the elements shown on the page (\<open>ui\<close>),
    the Drive listings issued (\<open>drive_log\<close>), the download requests issued
    (\<open>http_log\<close>) and the one session flag the program reads back (\<open>run_search\<close>).

  Strings are ASCII: the emoji and accents of the French messages are left out, and
  \<open>lower\<close> lowercases the letters A to Z as Python's \<open>str.lower\<close> does on ASCII text.
  The transient \<open>st.spinner\<close> blocks and the page title written at import time are not
  recorded.
\<close>

subsection \<open>Drive resources and listings\<close>

datatype query = AllFolders | InParents string

record drive_file =
  title :: string
  mimeType :: string
  file_id :: string
  downloadUrl :: "string option"
  parents :: "string list"
  trashed :: bool

record credentials =
  access_token :: string
  access_token_expired :: bool

record gdrive =
  auth :: credentials
  files :: "drive_file list"

definition folder_mime :: string where
  "folder_mime = ''application/vnd.google-apps.folder''"

text \<open>
  \<open>AllFolders\<close> is the query of \<open>get_root_folders\<close>
  (\<^verbatim>\<open>mimeType = 'application/vnd.google-apps.folder' and trashed = false\<close>),
  \<open>InParents p\<close> the one of \<open>recursive_search\<close>
  (\<^verbatim>\<open>'p' in parents and trashed = false\<close>). The listing keeps the order of the account.
\<close>

definition ListFile :: "gdrive \<Rightarrow> query \<Rightarrow> drive_file list" where
  "ListFile drive q =
     (case q of
        AllFolders \<Rightarrow> filter (\<lambda>f. mimeType f = folder_mime \<and> \<not> trashed f) (files drive)
      | InParents p \<Rightarrow> filter (\<lambda>f. p \<in> set (parents f) \<and> \<not> trashed f) (files drive))"

subsection \<open>Page elements and program state\<close>

datatype channel = Page | Sidebar

datatype widget = Header | Subheader | Markdown | Error | Warning | Info | Success
  | Write | Dataframe | Pyplot | DownloadButton

datatype ui_event = UI channel widget string

record state =
  ui :: "ui_event list"
  drive_log :: "query list"
  http_log :: "string list"
  run_search :: bool

definition emit :: "ui_event \<Rightarrow> state \<Rightarrow> state" where
  "emit e st = st\<lparr>ui := ui st @ [e]\<rparr>"

datatype exn = ValueError string | KeyError string | Exception string

fun str :: "exn \<Rightarrow> string" where
  "str (ValueError m) = m"
| "str (KeyError m) = m"
| "str (Exception m) = m"

text \<open>Decimal rendering of a length inside an f-string.\<close>

fun str_nat :: "nat \<Rightarrow> string" where
  "str_nat n = (if n < 10 then [''0123456789'' ! n] else str_nat (n div 10) @ [''0123456789'' ! (n mod 10)])"

declare str_nat.simps [simp del]

subsection \<open>Authentication\<close>

text \<open>
  \<open>credentials_file\<close> and \<open>client_secrets_file\<close> are the two \<open>os.path.exists\<close> tests;
  \<open>saved_credentials\<close> is what \<open>LoadCredentialsFile\<close> leaves in \<open>gauth.credentials\<close>;
  \<open>web_auth\<close> is the outcome of the three calls inside the \<open>try\<close> block
  (\<open>LoadClientConfigFile\<close>, \<open>LocalWebserverAuth\<close>, \<open>SaveCredentialsFile\<close>);
  \<open>refresh\<close> and \<open>authorize\<close> are \<open>gauth.Refresh()\<close> and \<open>gauth.Authorize()\<close>, whose
  exceptions the source does not catch. A fresh \<open>GoogleAuth()\<close> holds no credentials.
\<close>

record auth_world =
  credentials_file :: bool
  saved_credentials :: "exn + credentials option"
  client_secrets_file :: bool
  web_auth :: "exn + credentials"
  refresh :: "credentials \<Rightarrow> exn + credentials"
  authorize :: "credentials \<Rightarrow> exn + unit"
  remote :: "drive_file list"

definition authenticate_drive :: "auth_world \<Rightarrow> state \<Rightarrow> (exn + gdrive option) \<times> state" where
  "authenticate_drive w st =
     (case (if credentials_file w then saved_credentials w else Inr None) of
        Inl e \<Rightarrow> (Inl e, st)
      | Inr None \<Rightarrow>
          if client_secrets_file w
          then (case web_auth w of
                  Inl e \<Rightarrow> (Inr None, emit (UI Page Error (''Erreur lors de l'authentification : '' @ str e)) st)
                | Inr c \<Rightarrow> (Inr (Some \<lparr>auth = c, files = remote w\<rparr>), st))
          else (Inr None, emit (UI Sidebar Error ''client_secrets.json manquant.'') st)
      | Inr (Some c) \<Rightarrow>
          if access_token_expired c
          then (case refresh w c of
                  Inl e \<Rightarrow> (Inl e, st)
                | Inr c' \<Rightarrow> (Inr (Some \<lparr>auth = c', files = remote w\<rparr>), st))
          else (case authorize w c of
                  Inl e \<Rightarrow> (Inl e, st)
                | Inr _ \<Rightarrow> (Inr (Some \<lparr>auth = c, files = remote w\<rparr>), st)))"

subsection \<open>Root folders\<close>

text \<open>
  The dictionary comprehension \<^verbatim>\<open>{f['title']: f['id'] for f in file_list}\<close> as an
  association list in insertion order: \<open>AList.update\<close> overwrites the value of a key that is
  present, in place, and appends a new key at the end, as a Python \<open>dict\<close> does.
\<close>

definition get_root_folders :: "gdrive \<Rightarrow> state \<Rightarrow> (string \<times> string) list \<times> state" where
  "get_root_folders drive st =
     (let query = AllFolders;
          file_list = ListFile drive query
      in (fold (\<lambda>f d. AList.update (title f) (file_id f) d) file_list [],
          st\<lparr>drive_log := drive_log st @ [query]\<rparr>))"

subsection \<open>Recursive search\<close>

record found_file =
  name :: string
  path :: string
  found_id :: string
  download_url :: "string option"

definition lower_char :: "char \<Rightarrow> char" where
  "lower_char c =
     (case map_of (zip ''ABCDEFGHIJKLMNOPQRSTUVWXYZ'' ''abcdefghijklmnopqrstuvwxyz'') c of
        None \<Rightarrow> c
      | Some l \<Rightarrow> l)"

definition lower :: "string \<Rightarrow> string" where
  "lower s = map lower_char s"

definition join_path :: "string \<Rightarrow> string \<Rightarrow> string" where
  "join_path current_path t = current_path @ ''/'' @ t"

text \<open>
  Line 65 of the source:
  \<^verbatim>\<open>keyword.lower() in file['title'].lower() and file['title'].endswith(extension)\<close>.
\<close>

definition matches :: "string \<Rightarrow> string \<Rightarrow> drive_file \<Rightarrow> bool" where
  "matches keyword extension file \<longleftrightarrow>
     sublist (lower keyword) (lower (title file)) \<and> suffix extension (title file)"

text \<open>
  A \<open>for\<close> loop whose body may fail to return: \<open>None\<close> is passed on, otherwise the loop
  goes to the next element with the new state.
\<close>

fun for_each :: "'a list \<Rightarrow> 's \<Rightarrow> ('a \<Rightarrow> 's \<Rightarrow> 's option) \<Rightarrow> 's option" where
  "for_each [] s body = Some s"
| "for_each (x # xs) s body = (case body x s of None \<Rightarrow> None | Some s' \<Rightarrow> for_each xs s' body)"

text \<open>
  \<open>recursive_search\<close> calls itself for every subfolder and nothing bounds the depth, so the
  model takes a budget of nested calls: \<open>None\<close> means that the budget did not suffice. The
  list \<open>found_files\<close> that the closure appends to is threaded with the state.
\<close>

fun recursive_search ::
  "nat \<Rightarrow> gdrive \<Rightarrow> string \<Rightarrow> string \<Rightarrow> string \<Rightarrow> string \<Rightarrow> found_file list \<times> state
     \<Rightarrow> (found_file list \<times> state) option" where
  "recursive_search 0 drive keyword extension current_folder_id current_path acc = None"
| "recursive_search (Suc fuel) drive keyword extension current_folder_id current_path (found_files, st) =
     (let query = InParents current_folder_id;
          file_list = ListFile drive query
      in for_each file_list (found_files, st\<lparr>drive_log := drive_log st @ [query]\<rparr>)
           (\<lambda>file (found_files, st).
              let file_path = join_path current_path (title file) in
              if mimeType file = folder_mime
              then recursive_search fuel drive keyword extension (file_id file) file_path (found_files, st)
              else if matches keyword extension file
                then Some (found_files @
                       [\<lparr>name = title file, path = file_path, found_id = file_id file,
                         download_url = downloadUrl file\<rparr>], st)
                else Some (found_files, st)))"

definition find_files ::
  "nat \<Rightarrow> gdrive \<Rightarrow> string \<Rightarrow> string \<Rightarrow> string \<Rightarrow> state \<Rightarrow> (found_file list \<times> state) option" where
  "find_files fuel drive folder_id keyword extension st =
     recursive_search fuel drive keyword extension folder_id '''' ([], st)"

subsection \<open>Dataframes\<close>

text \<open>
  A dataframe has labelled, typed columns and rows carrying their index label; a cell that a
  row lacks is a missing value (NaN). A float cell \<open>FloatCell m e\<close> stands for the binary
  float \<open>m * 2 ^ e\<close>. Column labels are distinct in the frames pandas builds, so the loop
  over \<open>numeric_cols\<close> in the analysis tab reads the dtype next to the label.

  The two dtype tests of the analysis tab follow pandas:
  \<open>select_dtypes(include=['number'])\<close> keeps the columns whose scalar type is a subclass of
  \<open>numpy.number\<close> (integers, floats, and timedeltas, which numpy derives from its signed
  integers; not booleans, dates or objects), and \<open>pd.api.types.is_numeric_dtype\<close> accepts
  integers, floats and booleans and rejects dates and timedeltas.
\<close>

datatype dtype = Int64 | Float64 | Bool | Datetime64 | Timedelta64 | Object

datatype cell = IntCell int | FloatCell int int | TextCell string

record dataframe =
  columns :: "(string \<times> dtype) list"
  rows :: "(nat \<times> (string \<rightharpoonup> cell)) list"

definition np_number :: "dtype \<Rightarrow> bool" where
  "np_number t \<longleftrightarrow> t \<in> {Int64, Float64, Timedelta64}"

definition is_numeric_dtype :: "dtype \<Rightarrow> bool" where
  "is_numeric_dtype t \<longleftrightarrow> t \<in> {Int64, Float64, Bool}"

definition empty :: "dataframe \<Rightarrow> bool" where
  "empty df \<longleftrightarrow> rows df = [] \<or> columns df = []"

text \<open>
  \<open>pd.concat(objs, ignore_index=True)\<close>: \<open>ValueError\<close> on an empty list; otherwise the
  union of the column labels in order of first appearance, the rows of the frames one after the
  other, and a fresh index 0, 1, ... Every row is brought to the combined columns
  (\<open>reindex\<close>): a cell of a column that its frame lacks stays missing, and a present cell is
  converted to the dtype of the combined column, which can change its value (an integer
  column that is missing from one frame becomes \<open>float64\<close>). The dtype pandas gives a
  combined column and its conversion of a cell are the parameters \<open>result_dtype\<close> and
  \<open>cast\<close>.
\<close>

definition reindex ::
  "(string \<times> dtype) list \<Rightarrow> (dtype \<Rightarrow> cell \<Rightarrow> cell) \<Rightarrow> (string \<rightharpoonup> cell) \<Rightarrow> (string \<rightharpoonup> cell)" where
  "reindex typed cast row =
     (\<lambda>c. case map_of typed c of
            None \<Rightarrow> None
          | Some t \<Rightarrow> map_option (cast t) (row c))"

definition pd_concat ::
  "(string \<Rightarrow> dataframe list \<Rightarrow> dtype) \<Rightarrow> (dtype \<Rightarrow> cell \<Rightarrow> cell) \<Rightarrow> dataframe list \<Rightarrow> exn + dataframe" where
  "pd_concat result_dtype cast objs =
     (if objs = [] then Inl (ValueError ''No objects to concatenate'')
      else
        let typed = map (\<lambda>c. (c, result_dtype c objs))
                      (rev (remdups (rev (concat (map (\<lambda>df. map fst (columns df)) objs)))))
        in Inr \<lparr>columns = typed,
                 rows = enumerate 0
                          (map (reindex typed cast) (concat (map (\<lambda>df. map snd (rows df)) objs)))\<rparr>)"

subsection \<open>Download and combination\<close>

text \<open>
  The world outside the program: what the two calls of \<open>authenticate_drive\<close> meet,
  \<open>requests.get\<close> (from the link and the headers to the content, or an exception),
  \<open>pd.read_excel\<close>, the two parameters of \<open>pd_concat\<close>, and the calls that render the
  dataset: \<open>st.dataframe(final_df.head(10))\<close>, \<open>st.write(final_df.describe(include='all'))\<close>,
  the four plotting calls of one column (\<open>plt.subplots\<close>, \<open>sns.histplot\<close>,
  \<open>sns.boxplot\<close>, \<open>st.pyplot\<close>) and the serialisation for the download button.
\<close>

datatype export_format = CSV | Excel

record env =
  first_login :: auth_world
  second_login :: auth_world
  requests_get :: "string \<Rightarrow> (string \<times> string) list \<Rightarrow> exn + string"
  read_excel :: "string \<Rightarrow> exn + dataframe"
  concat_dtype :: "string \<Rightarrow> dataframe list \<Rightarrow> dtype"
  astype :: "dtype \<Rightarrow> cell \<Rightarrow> cell"
  st_dataframe :: "dataframe \<Rightarrow> exn + unit"
  describe :: "dataframe \<Rightarrow> exn + unit"
  plot :: "dataframe \<Rightarrow> string \<Rightarrow> exn + unit"
  to_file :: "dataframe \<Rightarrow> export_format \<Rightarrow> exn + unit"

fun load_excel_loop ::
  "env \<Rightarrow> (string \<times> string) list \<Rightarrow> found_file list \<Rightarrow> dataframe list \<times> state \<Rightarrow> dataframe list \<times> state" where
  "load_excel_loop env headers [] (dfs, st) = (dfs, st)"
| "load_excel_loop env headers (file_info # rest) (dfs, st) =
     (case download_url file_info of
        None \<Rightarrow> load_excel_loop env headers rest
                  (dfs, emit (UI Page Warning (''Impossible de telecharger '' @ name file_info)) st)
      | Some url \<Rightarrow>
          if url = []
          then load_excel_loop env headers rest
                 (dfs, emit (UI Page Warning (''Impossible de telecharger '' @ name file_info)) st)
          else (case requests_get env url headers of
                  Inl e \<Rightarrow> load_excel_loop env headers rest
                     (dfs, emit (UI Page Warning (''Echec du chargement de '' @ name file_info @ '' : '' @ str e))
                             (st\<lparr>http_log := http_log st @ [url]\<rparr>))
                | Inr content \<Rightarrow>
                    (case read_excel env content of
                       Inl e \<Rightarrow> load_excel_loop env headers rest
                          (dfs, emit (UI Page Warning (''Echec du chargement de '' @ name file_info @ '' : '' @ str e))
                                  (st\<lparr>http_log := http_log st @ [url]\<rparr>))
                     | Inr df \<Rightarrow> load_excel_loop env headers rest
                          (dfs @ [df], st\<lparr>http_log := http_log st @ [url]\<rparr>))))"

definition load_excel_files :: "env \<Rightarrow> gdrive \<Rightarrow> found_file list \<Rightarrow> state \<Rightarrow> dataframe list \<times> state" where
  "load_excel_files env drive files_info st =
     (let headers = [(''Authorization'', ''Bearer '' @ access_token (auth drive))]
      in load_excel_loop env headers files_info ([], st))"

definition load_data ::
  "nat \<Rightarrow> env \<Rightarrow> gdrive \<Rightarrow> string \<Rightarrow> string \<Rightarrow> string \<Rightarrow> state
     \<Rightarrow> ((exn + dataframe option \<times> found_file list option) \<times> state) option" where
  "load_data fuel env drive folder_id keyword extension st =
     (case find_files fuel drive folder_id keyword extension st of
        None \<Rightarrow> None
      | Some (files_found, st1) \<Rightarrow>
          if files_found = [] then Some (Inr (None, None), st1)
          else (case load_excel_files env drive files_found st1 of
                  (dfs, st2) \<Rightarrow>
                    (case pd_concat (concat_dtype env) (astype env) dfs of
                       Inl e \<Rightarrow> Some (Inl e, st2)
                     | Inr final_df \<Rightarrow> Some (Inr (Some final_df, Some files_found), st2))))"

subsection \<open>The page\<close>

text \<open>
  The widgets that return a value are the fields of \<open>ui_input\<close>: the two buttons, the
  position chosen in the folder select box (position 0 when nothing else is chosen), the
  keyword field and the export radio. The extension select box offers \<open>.xlsx\<close> only.
\<close>

record ui_input =
  login_button :: bool
  folder_choice :: nat
  keyword_input :: string
  search_button :: bool
  export_choice :: export_format

text \<open>\<open>st.rerun()\<close> ends the run of the script; an uncaught exception ends it as well.\<close>

datatype outcome = Returned | Rerun | Raised exn

text \<open>
  The three tabs. A rendering call that raises ends the tab, and with it the run, at that
  point: \<open>Some e\<close> is the exception, \<open>None\<close> a tab that ran to its end.
\<close>

definition dataset_tab :: "env \<Rightarrow> dataframe option \<Rightarrow> state \<Rightarrow> exn option \<times> state" where
  "dataset_tab env final_df st =
     (case final_df of
        None \<Rightarrow> (None, emit (UI Page Warning ''Aucune donnee a afficher.'') st)
      | Some df \<Rightarrow>
          if empty df then (None, emit (UI Page Warning ''Aucune donnee a afficher.'') st)
          else
            let st1 = fold emit
                        [UI Page Markdown ''### Dimensions du dataset'',
                         UI Page Markdown (''**Nombre de lignes :** '' @ str_nat (length (rows df))
                            @ '' | **Colonnes :** '' @ str_nat (length (columns df))),
                         UI Page Markdown ''### Apercu des donnees''] st
            in (case st_dataframe env df of
                  Inl e \<Rightarrow> (Some e, st1)
                | Inr _ \<Rightarrow> (None, emit (UI Page Dataframe ''final_df.head(10)'') st1)))"

definition non_numeric_warning :: "string \<Rightarrow> ui_event" where
  "non_numeric_warning col =
     UI Page Warning (''La colonne `'' @ col @ ''` n'est pas numerique. Elle sera ignoree pour le boxplot.'')"

text \<open>The loop over \<open>numeric_cols\<close> (lines 191 to 199).\<close>

fun plot_columns :: "env \<Rightarrow> dataframe \<Rightarrow> (string \<times> dtype) list \<Rightarrow> state \<Rightarrow> exn option \<times> state" where
  "plot_columns env final_df [] st = (None, st)"
| "plot_columns env final_df ((col, t) # rest) st =
     (if is_numeric_dtype t
      then (case plot env final_df col of
              Inl e \<Rightarrow> (Some e, st)
            | Inr _ \<Rightarrow> plot_columns env final_df rest (emit (UI Page Pyplot col) st))
      else plot_columns env final_df rest (emit (non_numeric_warning col) st))"

definition analysis_tab :: "env \<Rightarrow> dataframe option \<Rightarrow> state \<Rightarrow> exn option \<times> state" where
  "analysis_tab env final_df st =
     (case final_df of
        None \<Rightarrow> (None, emit (UI Page Warning ''Aucune donnee a analyser.'') st)
      | Some df \<Rightarrow>
          if empty df then (None, emit (UI Page Warning ''Aucune donnee a analyser.'') st)
          else
            let st1 = emit (UI Page Markdown ''### Statistiques descriptives'') st
            in (case describe env df of
                  Inl e \<Rightarrow> (Some e, st1)
                | Inr _ \<Rightarrow>
                    let st2 = emit (UI Page Write ''final_df.describe(include=all)'') st1;
                        numeric_cols = filter (\<lambda>(col, t). np_number t) (columns df)
                    in if length numeric_cols > 0
                       then plot_columns env df numeric_cols
                              (emit (UI Page Markdown ''### Distribution des variables numeriques'') st2)
                       else (None, emit (UI Page Info ''Aucune variable numerique a visualiser.'') st2)))"

definition export_tab :: "env \<Rightarrow> dataframe option \<Rightarrow> ui_input \<Rightarrow> state \<Rightarrow> exn option \<times> state" where
  "export_tab env final_df inp st =
     (case final_df of
        None \<Rightarrow> (None, emit (UI Page Warning ''Aucune donnee a exporter.'') st)
      | Some df \<Rightarrow>
          if empty df then (None, emit (UI Page Warning ''Aucune donnee a exporter.'') st)
          else
            let st1 = emit (UI Page Markdown ''### Exporter le dataset combine'') st
            in (case to_file env df (export_choice inp) of
                  Inl e \<Rightarrow> (Some e, st1)
                | Inr _ \<Rightarrow>
                    (case export_choice inp of
                       CSV \<Rightarrow> (None, emit (UI Page DownloadButton ''dataset_combine.csv'') st1)
                     | Excel \<Rightarrow> (None, emit (UI Page DownloadButton ''dataset_combine.xlsx'') st1))))"

definition show_results ::
  "env \<Rightarrow> string \<Rightarrow> dataframe option \<Rightarrow> found_file list option \<Rightarrow> ui_input \<Rightarrow> state
     \<Rightarrow> outcome \<times> state" where
  "show_results env selected_folder final_df files_found inp st =
     (let found = (case files_found of None \<Rightarrow> [] | Some fs \<Rightarrow> fs);
          st1 = (if found \<noteq> []
                 then fold (\<lambda>file. emit (UI Sidebar Markdown (''- '' @ name file))) found
                        (emit (UI Sidebar Markdown ''**Liste des fichiers :**'')
                          (emit (UI Sidebar Info (''Fichiers trouves : '' @ str_nat (length found))) st))
                 else emit (UI Sidebar Error ''Aucun fichier trouve.'') st);
          st2 = emit (UI Page Subheader (''Resultats pour le dossier : `'' @ selected_folder @ ''`'')) st1
      in if found = [] then (Returned, emit (UI Page Error ''Aucun fichier trouve avec ce mot-cle.'') st2)
         else
           (case dataset_tab env final_df
                   (emit (UI Page Success (str_nat (length found) @ '' fichiers trouves !'')) st2) of
              (Some e, st3) \<Rightarrow> (Raised e, st3)
            | (None, st3) \<Rightarrow>
                (case analysis_tab env final_df st3 of
                   (Some e, st4) \<Rightarrow> (Raised e, st4)
                 | (None, st4) \<Rightarrow>
                     (case export_tab env final_df inp st4 of
                        (Some e, st5) \<Rightarrow> (Raised e, st5)
                      | (None, st5) \<Rightarrow> (Returned, st5)))))"

definition main :: "nat \<Rightarrow> env \<Rightarrow> ui_input \<Rightarrow> state \<Rightarrow> (outcome \<times> state) option" where
  "main fuel env inp st0 =
     (case authenticate_drive (first_login env) (emit (UI Sidebar Header ''Authentification'') st0) of
        (Inl e, st) \<Rightarrow> Some (Raised e, st)
      | (Inr None, st) \<Rightarrow>
          if login_button inp
          then (case authenticate_drive (second_login env) st of
                  (Inl e, st') \<Rightarrow> Some (Raised e, st')
                | (Inr None, st') \<Rightarrow> Some (Returned, st')
                | (Inr (Some drive), st') \<Rightarrow> Some (Rerun, st'))
          else Some (Returned, st)
      | (Inr (Some drive), st) \<Rightarrow>
          (case get_root_folders drive (emit (UI Sidebar Success ''Connecte a Google Drive'') st) of
             (root_folders, st1) \<Rightarrow>
               if root_folders = []
               then Some (Returned, emit (UI Page Warning ''Aucun dossier trouve dans votre Google Drive.'') st1)
               else
                 let options = map fst root_folders;
                     selected_folder =
                       options ! (if folder_choice inp < length options then folder_choice inp else 0)
                 in (case map_of root_folders selected_folder of
                       None \<Rightarrow> Some (Raised (KeyError selected_folder), st1)
                     | Some folder_id \<Rightarrow>
                         let keyword = keyword_input inp;
                             extension = ''.xlsx''
                         in if search_button inp then Some (Rerun, st1\<lparr>run_search := True\<rparr>)
                            else if run_search st1
                            then (case load_data fuel env drive folder_id keyword extension st1 of
                                    None \<Rightarrow> None
                                  | Some (Inl e, st2) \<Rightarrow> Some (Raised e, st2)
                                  | Some (Inr (final_df, files_found), st2) \<Rightarrow>
                                      Some (show_results env selected_folder final_df files_found inp st2))
                            else Some (Returned, st1))))"

section \<open>Specification vocabulary\<close>

text \<open>
  \<open>finite_tree drive folder_id\<close>: the folders below \<open>folder_id\<close> form a finite acyclic
  tree, that is, every chain of nested subfolders starting at \<open>folder_id\<close> ends. The account
  is a finite list, so this excludes exactly the cycles.
\<close>

inductive finite_tree :: "gdrive \<Rightarrow> string \<Rightarrow> bool" where
  node: "(\<And>c. c \<in> set (ListFile drive (InParents folder_id)) \<Longrightarrow> mimeType c = folder_mime
            \<Longrightarrow> finite_tree drive (file_id c))
         \<Longrightarrow> finite_tree drive folder_id"

text \<open>
  \<open>located drive folder_id cur f p\<close>: the resource \<open>f\<close> is listed in the subtree of
  \<open>folder_id\<close>, at path \<open>p\<close> when the path of \<open>folder_id\<close> is \<open>cur\<close>.
\<close>

inductive located :: "gdrive \<Rightarrow> string \<Rightarrow> string \<Rightarrow> drive_file \<Rightarrow> string \<Rightarrow> bool" where
  here: "f \<in> set (ListFile drive (InParents folder_id))
         \<Longrightarrow> located drive folder_id cur f (join_path cur (title f))"
| below: "c \<in> set (ListFile drive (InParents folder_id)) \<Longrightarrow> mimeType c = folder_mime
         \<Longrightarrow> located drive (file_id c) (join_path cur (title c)) f p
         \<Longrightarrow> located drive folder_id cur f p"

definition entry :: "drive_file \<Rightarrow> string \<Rightarrow> found_file" where
  "entry f p = \<lparr>name = title f, path = p, found_id = file_id f, download_url = downloadUrl f\<rparr>"

definition hits :: "gdrive \<Rightarrow> string \<Rightarrow> string \<Rightarrow> string \<Rightarrow> string \<Rightarrow> found_file set" where
  "hits drive keyword extension folder_id cur =
     {entry f p | f p. located drive folder_id cur f p \<and> mimeType f \<noteq> folder_mime
        \<and> matches keyword extension f}"

definition child_hits :: "gdrive \<Rightarrow> string \<Rightarrow> string \<Rightarrow> string \<Rightarrow> drive_file \<Rightarrow> found_file set" where
  "child_hits drive keyword extension cur c =
     (if mimeType c = folder_mime
      then hits drive keyword extension (file_id c) (join_path cur (title c))
      else if matches keyword extension c then {entry c (join_path cur (title c))} else {})"

definition subfolder_queries :: "gdrive \<Rightarrow> string \<Rightarrow> string \<Rightarrow> query set" where
  "subfolder_queries drive folder_id cur =
     {InParents (file_id c) | c p. located drive folder_id cur c p \<and> mimeType c = folder_mime}"

definition child_queries :: "gdrive \<Rightarrow> string \<Rightarrow> drive_file \<Rightarrow> query set" where
  "child_queries drive cur c =
     (if mimeType c = folder_mime
      then insert (InParents (file_id c)) (subfolder_queries drive (file_id c) (join_path cur (title c)))
      else {})"

text \<open>The body of the loop of \<open>recursive_search\<close>, over any recursive call \<open>rec\<close>.\<close>

definition visit ::
  "(string \<Rightarrow> string \<Rightarrow> found_file list \<times> state \<Rightarrow> (found_file list \<times> state) option)
     \<Rightarrow> string \<Rightarrow> string \<Rightarrow> string \<Rightarrow> drive_file \<Rightarrow> found_file list \<times> state
     \<Rightarrow> (found_file list \<times> state) option" where
  "visit rec keyword extension cur file acc =
     (if mimeType file = folder_mime then rec (file_id file) (join_path cur (title file)) acc
      else if matches keyword extension file
        then Some (fst acc @ [entry file (join_path cur (title file))], snd acc)
        else Some acc)"

text \<open>
  What \<open>load_excel_files\<close> does with one list entry: the request it issues, the outcome of
  its single attempt (\<open>None\<close>: no usable link), and the frame or the warning that follows.
\<close>

definition requested :: "found_file \<Rightarrow> string list" where
  "requested file_info =
     (case download_url file_info of
        None \<Rightarrow> []
      | Some url \<Rightarrow> if url = [] then [] else [url])"

definition attempt :: "env \<Rightarrow> (string \<times> string) list \<Rightarrow> found_file \<Rightarrow> (exn + dataframe) option" where
  "attempt env headers file_info =
     (case download_url file_info of
        None \<Rightarrow> None
      | Some url \<Rightarrow>
          if url = [] then None
          else Some (case requests_get env url headers of
                       Inl e \<Rightarrow> Inl e
                     | Inr content \<Rightarrow> read_excel env content))"

definition frames_of :: "(exn + dataframe) option \<Rightarrow> dataframe list" where
  "frames_of a = (case a of Some (Inr df) \<Rightarrow> [df] | _ \<Rightarrow> [])"

definition warnings_of :: "found_file \<Rightarrow> (exn + dataframe) option \<Rightarrow> ui_event list" where
  "warnings_of file_info a =
     (case a of
        None \<Rightarrow> [UI Page Warning (''Impossible de telecharger '' @ name file_info)]
      | Some (Inl e) \<Rightarrow>
          [UI Page Warning (''Echec du chargement de '' @ name file_info @ '' : '' @ str e)]
      | Some (Inr df) \<Rightarrow> [])"

definition bearer :: "gdrive \<Rightarrow> (string \<times> string) list" where
  "bearer drive = [(''Authorization'', ''Bearer '' @ access_token (auth drive))]"

definition is_warning :: "ui_event \<Rightarrow> bool" where
  "is_warning e = (case e of UI c w m \<Rightarrow> w = Warning)"

subsection \<open>Example inputs\<close>

definition mk_file :: "string \<Rightarrow> string \<Rightarrow> string \<Rightarrow> string option \<Rightarrow> string list \<Rightarrow> drive_file" where
  "mk_file t m i u ps =
     \<lparr>title = t, mimeType = m, file_id = i, downloadUrl = u, parents = ps, trashed = False\<rparr>"

definition xlsx_mime :: string where
  "xlsx_mime = ''application/vnd.openxmlformats-officedocument.spreadsheetml.sheet''"

definition example_files :: "drive_file list" where
  "example_files =
     [mk_file ''reports'' folder_mime ''r'' None [],
      mk_file ''2024'' folder_mime ''s'' None [''r''],
      mk_file ''TX_CURR_q1.xlsx'' xlsx_mime ''f1'' (Some ''https://drive.test/f1'') [''r''],
      mk_file ''tx_curr_q2.xlsx'' xlsx_mime ''f2'' None [''s''],
      mk_file ''DATA.XLSX'' xlsx_mime ''f3'' (Some ''https://drive.test/f3'') [''s'']]"

definition example_credentials :: credentials where
  "example_credentials = \<lparr>access_token = ''token'', access_token_expired = False\<rparr>"

definition example_drive :: gdrive where
  "example_drive = \<lparr>auth = example_credentials, files = example_files\<rparr>"

definition looping_drive :: gdrive where
  "looping_drive =
     \<lparr>auth = example_credentials,
      files = [mk_file ''a'' folder_mime ''a'' None [''b''],
               mk_file ''b'' folder_mime ''b'' None [''a'']]\<rparr>"

definition same_title_drive :: gdrive where
  "same_title_drive =
     \<lparr>auth = example_credentials,
      files = [mk_file ''data'' folder_mime ''id1'' None [],
               mk_file ''other'' folder_mime ''id2'' None [],
               mk_file ''data'' folder_mime ''id3'' None []]\<rparr>"

definition initial_state :: state where
  "initial_state = \<lparr>ui = [], drive_log = [], http_log = [], run_search = True\<rparr>"

definition example_frame :: dataframe where
  "example_frame =
     \<lparr>columns = [(''site'', Object), (''tx_curr'', Int64)],
      rows = [(0, [''site'' \<mapsto> TextCell ''A'', ''tx_curr'' \<mapsto> IntCell 12]),
              (1, [''site'' \<mapsto> TextCell ''B'', ''tx_curr'' \<mapsto> IntCell 7])]\<rparr>"

definition site_frame :: dataframe where
  "site_frame =
     \<lparr>columns = [(''site'', Object)],
      rows = [(0, [''site'' \<mapsto> TextCell ''C''])]\<rparr>"

definition text_frame :: dataframe where
  "text_frame =
     \<lparr>columns = [(''site'', Object), (''tx_curr'', Int64)],
      rows = [(0, [''site'' \<mapsto> TextCell ''A'', ''tx_curr'' \<mapsto> IntCell 12]),
              (1, [''site'' \<mapsto> TextCell ''B'', ''tx_curr'' \<mapsto> IntCell 7])]\<rparr>"

definition gap_frame :: dataframe where
  "gap_frame =
     \<lparr>columns = [(''x'', Float64), (''delay'', Timedelta64)],
      rows = [(0, [''delay'' \<mapsto> IntCell 3]), (1, [''delay'' \<mapsto> IntCell 5])]\<rparr>"

definition duration_frame :: dataframe where
  "duration_frame =
     \<lparr>columns = [(''site'', Object), (''delay'', Timedelta64)],
      rows = [(0, [''site'' \<mapsto> TextCell ''A'', ''delay'' \<mapsto> IntCell 3])]\<rparr>"

definition example_world :: auth_world where
  "example_world =
     \<lparr>credentials_file = True, saved_credentials = Inr (Some example_credentials),
      client_secrets_file = True, web_auth = Inr example_credentials,
      refresh = (\<lambda>c. Inr c), authorize = (\<lambda>c. Inr ()), remote = example_files\<rparr>"

definition example_env :: env where
  "example_env =
     \<lparr>first_login = example_world, second_login = example_world,
      requests_get = (\<lambda>url headers. Inr url),
      read_excel = (\<lambda>content. Inr example_frame),
      concat_dtype = (\<lambda>col dfs. Object),
      astype = (\<lambda>t c. c),
      st_dataframe = (\<lambda>df. Inr ()),
      describe = (\<lambda>df. Inr ()),
      plot = (\<lambda>df col. Inr ()),
      to_file = (\<lambda>df fmt. Inr ())\<rparr>"

definition offline_env :: env where
  "offline_env = example_env\<lparr>requests_get := (\<lambda>url headers. Inl (Exception ''Connection refused''))\<rparr>"

definition workbooks_drive :: gdrive where
  "workbooks_drive =
     \<lparr>auth = example_credentials,
      files = [mk_file ''reports'' folder_mime ''r'' None [],
               mk_file ''tx_curr_a.xlsx'' xlsx_mime ''a'' (Some ''https://drive.test/a'') [''r''],
               mk_file ''tx_curr_c.xlsx'' xlsx_mime ''c'' (Some ''https://drive.test/c'') [''r''],
               mk_file ''tx_curr_b.xlsx'' xlsx_mime ''b'' (Some ''https://drive.test/b'') [''r'']]\<rparr>"

definition workbooks_env :: env where
  "workbooks_env =
     example_env
       \<lparr>read_excel :=
          (\<lambda>content. if content = ''https://drive.test/a'' then Inr example_frame
                     else if content = ''https://drive.test/b'' then Inr site_frame
                     else Inl (Exception ''File is not a zip file'')),
        concat_dtype := (\<lambda>col dfs. if col = ''tx_curr'' then Float64 else Object),
        astype := (\<lambda>t c. case c of IntCell n \<Rightarrow> if t = Float64 then FloatCell n 0 else c | _ \<Rightarrow> c)\<rparr>"

definition failing_plot_env :: env where
  "failing_plot_env = example_env\<lparr>plot := (\<lambda>df col. Inl (ValueError ''no data to plot''))\<rparr>"

definition no_credentials_world :: auth_world where
  "no_credentials_world =
     \<lparr>credentials_file = False, saved_credentials = Inr None,
      client_secrets_file = False, web_auth = Inl (Exception ''no client configuration''),
      refresh = (\<lambda>c. Inr c), authorize = (\<lambda>c. Inr ()), remote = example_files\<rparr>"

definition no_credentials_env :: env where
  "no_credentials_env =
     \<lparr>first_login = no_credentials_world, second_login = no_credentials_world,
      requests_get = (\<lambda>url headers. Inr url),
      read_excel = (\<lambda>content. Inl (Exception ''not a workbook'')),
      concat_dtype = (\<lambda>col dfs. Object),
      astype = (\<lambda>t c. c),
      st_dataframe = (\<lambda>df. Inr ()),
      describe = (\<lambda>df. Inr ()),
      plot = (\<lambda>df col. Inr ()),
      to_file = (\<lambda>df fmt. Inr ())\<rparr>"

definition example_input :: ui_input where
  "example_input =
     \<lparr>login_button = False, folder_choice = 0, keyword_input = ''tx_curr'',
      search_button = False, export_choice = CSV\<rparr>"

lemmas example_defs =
  ListFile_def example_drive_def example_files_def mk_file_def folder_mime_def xlsx_mime_def
  initial_state_def join_path_def matches_def lower_def lower_char_def sublist_code
  suffix_to_prefix example_credentials_def

section \<open>The loop and the budget\<close>

lemma for_each_mono:
  assumes "for_each xs s f = Some r"
    and "\<And>x s r. x \<in> set xs \<Longrightarrow> f x s = Some r \<Longrightarrow> g x s = Some r"
  shows "for_each xs s g = Some r"
  using assms
proof (induction xs arbitrary: s)
  case Nil
  then show ?case by simp
next
  case (Cons x xs)
  from Cons.prems(1) obtain s' where s': "f x s = Some s'" and rest: "for_each xs s' f = Some r"
    by (auto split: option.splits)
  from s' have "g x s = Some s'" by (rule Cons.prems(2) [rotated]) simp
  moreover have "for_each xs s' g = Some r"
    using rest Cons.prems(2) by (intro Cons.IH) auto
  ultimately show ?case by simp
qed

lemma for_each_total:
  assumes "\<And>x s. x \<in> set xs \<Longrightarrow> body x s \<noteq> None"
  shows "for_each xs s body \<noteq> None"
  using assms
proof (induction xs arbitrary: s)
  case Nil
  then show ?case by simp
next
  case (Cons x xs)
  from Cons.prems [of x s] obtain s' where "body x s = Some s'" by auto
  moreover have "for_each xs s' body \<noteq> None" using Cons.prems by (intro Cons.IH) auto
  ultimately show ?case by simp
qed

lemma for_each_stuck:
  assumes "x \<in> set xs" and "\<And>s. body x s = None"
  shows "for_each xs s body = None"
  using assms(1)
proof (induction xs arbitrary: s)
  case Nil
  then show ?case by simp
next
  case (Cons y ys)
  show ?case
  proof (cases "body y s")
    case None
    then show ?thesis by simp
  next
    case (Some s')
    with assms(2) have "y \<noteq> x" by auto
    with Cons.prems have "x \<in> set ys" by simp
    then have "for_each ys s' body = None" by (rule Cons.IH)
    with Some show ?thesis by simp
  qed
qed

lemma for_each_invariant:
  assumes "for_each xs s body = Some r" and "I s"
    and "\<And>x s s'. x \<in> set xs \<Longrightarrow> I s \<Longrightarrow> body x s = Some s' \<Longrightarrow> I s'"
  shows "I r"
  using assms
proof (induction xs arbitrary: s)
  case Nil
  then show ?case by simp
next
  case (Cons x xs)
  from Cons.prems(1) obtain s' where s': "body x s = Some s'" and rest: "for_each xs s' body = Some r"
    by (auto split: option.splits)
  have "I s'" using Cons.prems(2) s' by (intro Cons.prems(3) [of x s s']) auto
  with rest show ?case using Cons.prems(3) by (intro Cons.IH [of s']) auto
qed

lemma recursive_search_step:
  "recursive_search (Suc fuel) drive keyword extension folder_id cur (found, st) =
     for_each (ListFile drive (InParents folder_id))
       (found, st\<lparr>drive_log := drive_log st @ [InParents folder_id]\<rparr>)
       (visit (recursive_search fuel drive keyword extension) keyword extension cur)"
proof -
  have "(\<lambda>file (found_files, st).
           let file_path = join_path cur (title file) in
           if mimeType file = folder_mime
           then recursive_search fuel drive keyword extension (file_id file) file_path (found_files, st)
           else if matches keyword extension file
             then Some (found_files @
                    [\<lparr>name = title file, path = file_path, found_id = file_id file,
                      download_url = downloadUrl file\<rparr>], st)
             else Some (found_files, st))
        = visit (recursive_search fuel drive keyword extension) keyword extension cur"
    by (intro ext) (simp add: visit_def entry_def Let_def split: prod.splits)
  then show ?thesis by (simp add: Let_def)
qed

declare recursive_search.simps(2) [simp del]

lemma visit_mono:
  assumes "visit f keyword extension cur file acc = Some r"
    and "\<And>i p. f i p acc = Some r \<Longrightarrow> g i p acc = Some r"
  shows "visit g keyword extension cur file acc = Some r"
  using assms by (auto simp: visit_def split: if_splits)

lemma recursive_search_Suc:
  "recursive_search fuel drive keyword extension folder_id cur acc = Some r
   \<Longrightarrow> recursive_search (Suc fuel) drive keyword extension folder_id cur acc = Some r"
proof (induction fuel arbitrary: folder_id cur acc r)
  case 0
  then show ?case by simp
next
  case (Suc fuel)
  obtain found st where acc: "acc = (found, st)" by (cases acc)
  from Suc.prems show ?case
    unfolding acc recursive_search_step
    by (rule for_each_mono) (erule visit_mono, rule Suc.IH)
qed

lemma recursive_search_fuel_mono:
  assumes "recursive_search fuel drive keyword extension folder_id cur acc = Some r"
    and "fuel \<le> fuel'"
  shows "recursive_search fuel' drive keyword extension folder_id cur acc = Some r"
  using assms(2,1) by (induction fuel' rule: dec_induct) (auto intro: recursive_search_Suc)

lemma common_bound:
  assumes "\<And>x. x \<in> set xs \<Longrightarrow> P x \<Longrightarrow> \<exists>n. Q x n"
    and "\<And>x n m. Q x n \<Longrightarrow> n \<le> m \<Longrightarrow> Q x m"
  shows "\<exists>N::nat. \<forall>x \<in> set xs. P x \<longrightarrow> Q x N"
  using assms(1)
proof (induction xs)
  case Nil
  then show ?case by simp
next
  case (Cons x xs)
  then obtain N where N: "\<forall>y \<in> set xs. P y \<longrightarrow> Q y N" by fastforce
  show ?case
  proof (cases "P x")
    case True
    with Cons.prems obtain n where "Q x n" by fastforce
    with N assms(2) have "\<forall>y \<in> set (x # xs). P y \<longrightarrow> Q y (max n N)"
      by (auto intro: assms(2) [of _ n] assms(2) [of _ N])
    then show ?thesis ..
  next
    case False
    with N show ?thesis by auto
  qed
qed

lemma recursive_search_returns:
  assumes "finite_tree drive folder_id"
  shows "\<exists>n. \<forall>cur acc. recursive_search n drive keyword extension folder_id cur acc \<noteq> None"
  using assms
proof (induction rule: finite_tree.induct)
  case (node drive folder_id)
  let ?Q = "\<lambda>c n. \<forall>cur acc. recursive_search n drive keyword extension (file_id c) cur acc \<noteq> None"
  have "\<exists>N. \<forall>c \<in> set (ListFile drive (InParents folder_id)). mimeType c = folder_mime \<longrightarrow> ?Q c N"
  proof (rule common_bound)
    fix c assume "c \<in> set (ListFile drive (InParents folder_id))" "mimeType c = folder_mime"
    then show "\<exists>n. ?Q c n" by (rule node.IH)
  next
    fix c n m assume q: "?Q c n" and le: "n \<le> (m::nat)"
    show "?Q c m"
    proof (intro allI)
      fix cur acc
      from q obtain r where "recursive_search n drive keyword extension (file_id c) cur acc = Some r"
        by blast
      from recursive_search_fuel_mono [OF this le]
      show "recursive_search m drive keyword extension (file_id c) cur acc \<noteq> None" by simp
    qed
  qed
  then obtain N where N: "\<And>c. c \<in> set (ListFile drive (InParents folder_id))
     \<Longrightarrow> mimeType c = folder_mime \<Longrightarrow> ?Q c N" by blast
  have "\<forall>cur acc. recursive_search (Suc N) drive keyword extension folder_id cur acc \<noteq> None"
  proof (intro allI)
    fix cur and acc :: "found_file list \<times> state"
    obtain found st where acc: "acc = (found, st)" by (cases acc)
    show "recursive_search (Suc N) drive keyword extension folder_id cur acc \<noteq> None"
      unfolding acc recursive_search_step
      by (rule for_each_total) (auto simp: visit_def dest: N)
  qed
  then show ?case ..
qed

lemma recursive_search_diverges:
  assumes "\<not> finite_tree drive folder_id"
  shows "recursive_search n drive keyword extension folder_id cur acc = None"
  using assms
proof (induction n arbitrary: folder_id cur acc)
  case 0
  then show ?case by simp
next
  case (Suc n)
  obtain found st where acc: "acc = (found, st)" by (cases acc)
  from Suc.prems obtain c where c: "c \<in> set (ListFile drive (InParents folder_id))"
    and folder: "mimeType c = folder_mime" and bad: "\<not> finite_tree drive (file_id c)"
    using finite_tree.node by blast
  have "\<And>s. visit (recursive_search n drive keyword extension) keyword extension cur c s = None"
    using folder Suc.IH [OF bad] by (simp add: visit_def)
  with c show ?case unfolding acc recursive_search_step by (rule for_each_stuck)
qed

lemma recursive_search_frame:
  assumes "recursive_search n drive keyword extension folder_id cur acc = Some acc'"
  shows "ui (snd acc') = ui (snd acc) \<and> http_log (snd acc') = http_log (snd acc)
     \<and> run_search (snd acc') = run_search (snd acc)"
  using assms
proof (induction n arbitrary: folder_id cur acc acc')
  case 0
  then show ?case by simp
next
  case (Suc n)
  obtain found st where acc: "acc = (found, st)" by (cases acc)
  let ?I = "\<lambda>a. ui (snd a) = ui st \<and> http_log (snd a) = http_log st \<and> run_search (snd a) = run_search st"
  from Suc.prems have run: "for_each (ListFile drive (InParents folder_id))
       (found, st\<lparr>drive_log := drive_log st @ [InParents folder_id]\<rparr>)
       (visit (recursive_search n drive keyword extension) keyword extension cur) = Some acc'"
    unfolding acc recursive_search_step .
  have "?I acc'"
  proof (rule for_each_invariant [OF run, where I = ?I])
    show "?I (found, st\<lparr>drive_log := drive_log st @ [InParents folder_id]\<rparr>)" by simp
  next
    fix x s s'
    assume "?I s" and "visit (recursive_search n drive keyword extension) keyword extension cur x s = Some s'"
    then show "?I s'"
      by (auto simp: visit_def split: if_splits dest: Suc.IH)
  qed
  then show ?case by (simp add: acc)
qed

section \<open>What the search collects\<close>

lemma hits_unfold:
  "hits drive keyword extension folder_id cur =
     (\<Union>c \<in> set (ListFile drive (InParents folder_id)). child_hits drive keyword extension cur c)"
proof (rule set_eqI, rule iffI)
  fix e
  assume "e \<in> hits drive keyword extension folder_id cur"
  then obtain f p where e: "e = entry f p" and loc: "located drive folder_id cur f p"
    and nf: "mimeType f \<noteq> folder_mime" and m: "matches keyword extension f"
    by (auto simp: hits_def)
  from loc show "e \<in> (\<Union>c \<in> set (ListFile drive (InParents folder_id)). child_hits drive keyword extension cur c)"
  proof cases
    case here
    with e nf m show ?thesis by (auto simp: child_hits_def)
  next
    case (below c)
    with e nf m show ?thesis by (auto simp: child_hits_def hits_def)
  qed
next
  fix e
  assume "e \<in> (\<Union>c \<in> set (ListFile drive (InParents folder_id)). child_hits drive keyword extension cur c)"
  then obtain c where c: "c \<in> set (ListFile drive (InParents folder_id))"
    and e: "e \<in> child_hits drive keyword extension cur c" by auto
  show "e \<in> hits drive keyword extension folder_id cur"
  proof (cases "mimeType c = folder_mime")
    case True
    with e obtain f p where "e = entry f p" "located drive (file_id c) (join_path cur (title c)) f p"
      "mimeType f \<noteq> folder_mime" "matches keyword extension f"
      by (auto simp: child_hits_def hits_def)
    with c True show ?thesis unfolding hits_def using located.below by blast
  next
    case False
    with e have "matches keyword extension c" "e = entry c (join_path cur (title c))"
      by (auto simp: child_hits_def split: if_splits)
    with c False show ?thesis unfolding hits_def using located.here by blast
  qed
qed

lemma for_each_visit_collects:
  assumes "for_each xs acc (visit rec keyword extension cur) = Some acc'"
    and "\<And>c a a'. c \<in> set xs \<Longrightarrow> mimeType c = folder_mime
           \<Longrightarrow> rec (file_id c) (join_path cur (title c)) a = Some a'
           \<Longrightarrow> \<exists>new. fst a' = fst a @ new
                 \<and> set new = hits drive keyword extension (file_id c) (join_path cur (title c))"
  shows "\<exists>new. fst acc' = fst acc @ new
           \<and> set new = (\<Union>c \<in> set xs. child_hits drive keyword extension cur c)"
  using assms
proof (induction xs arbitrary: acc)
  case Nil
  then show ?case by simp
next
  case (Cons x xs)
  from Cons.prems(1) obtain mid where mid: "visit rec keyword extension cur x acc = Some mid"
    and rest: "for_each xs mid (visit rec keyword extension cur) = Some acc'"
    by (auto split: option.splits)
  have "\<exists>new1. fst mid = fst acc @ new1 \<and> set new1 = child_hits drive keyword extension cur x"
  proof (cases "mimeType x = folder_mime")
    case True
    with mid have "rec (file_id x) (join_path cur (title x)) acc = Some mid" by (simp add: visit_def)
    from Cons.prems(2) [OF _ True this] True show ?thesis by (simp add: child_hits_def)
  next
    case False
    with mid show ?thesis by (auto simp: visit_def child_hits_def split: if_splits)
  qed
  then obtain new1 where new1: "fst mid = fst acc @ new1"
    "set new1 = child_hits drive keyword extension cur x" by blast
  have "\<exists>new2. fst acc' = fst mid @ new2
          \<and> set new2 = (\<Union>c \<in> set xs. child_hits drive keyword extension cur c)"
    using rest Cons.prems(2) by (intro Cons.IH) auto
  then obtain new2 where new2: "fst acc' = fst mid @ new2"
    "set new2 = (\<Union>c \<in> set xs. child_hits drive keyword extension cur c)" by blast
  from new1 new2 have "fst acc' = fst acc @ (new1 @ new2)
     \<and> set (new1 @ new2) = (\<Union>c \<in> set (x # xs). child_hits drive keyword extension cur c)"
    by simp
  then show ?case by blast
qed

lemma recursive_search_collects:
  assumes "recursive_search n drive keyword extension folder_id cur acc = Some acc'"
  shows "\<exists>new. fst acc' = fst acc @ new \<and> set new = hits drive keyword extension folder_id cur"
  using assms
proof (induction n arbitrary: folder_id cur acc acc')
  case 0
  then show ?case by simp
next
  case (Suc n)
  obtain found st where acc: "acc = (found, st)" by (cases acc)
  from Suc.prems have run: "for_each (ListFile drive (InParents folder_id))
       (found, st\<lparr>drive_log := drive_log st @ [InParents folder_id]\<rparr>)
       (visit (recursive_search n drive keyword extension) keyword extension cur) = Some acc'"
    unfolding acc recursive_search_step .
  from for_each_visit_collects [OF run, of drive] Suc.IH
  have "\<exists>new. fst acc' = found @ new
     \<and> set new = (\<Union>c \<in> set (ListFile drive (InParents folder_id)). child_hits drive keyword extension cur c)"
    by simp
  then show ?case by (simp add: acc hits_unfold)
qed

lemma subfolder_queries_unfold:
  "subfolder_queries drive folder_id cur =
     (\<Union>c \<in> set (ListFile drive (InParents folder_id)). child_queries drive cur c)"
proof (rule set_eqI, rule iffI)
  fix q
  assume "q \<in> subfolder_queries drive folder_id cur"
  then obtain c p where q: "q = InParents (file_id c)" and loc: "located drive folder_id cur c p"
    and folder: "mimeType c = folder_mime"
    by (auto simp: subfolder_queries_def)
  from loc show "q \<in> (\<Union>c \<in> set (ListFile drive (InParents folder_id)). child_queries drive cur c)"
  proof cases
    case here
    with q folder show ?thesis by (auto simp: child_queries_def)
  next
    case (below d)
    with q folder show ?thesis by (auto simp: child_queries_def subfolder_queries_def)
  qed
next
  fix q
  assume "q \<in> (\<Union>c \<in> set (ListFile drive (InParents folder_id)). child_queries drive cur c)"
  then obtain c where c: "c \<in> set (ListFile drive (InParents folder_id))"
    and q: "q \<in> child_queries drive cur c" by auto
  from q have folder: "mimeType c = folder_mime" by (auto simp: child_queries_def split: if_splits)
  from q folder consider "q = InParents (file_id c)"
    | "q \<in> subfolder_queries drive (file_id c) (join_path cur (title c))"
    by (auto simp: child_queries_def)
  then show "q \<in> subfolder_queries drive folder_id cur"
  proof cases
    case 1
    with c folder show ?thesis unfolding subfolder_queries_def using located.here by blast
  next
    case 2
    then obtain d p where "q = InParents (file_id d)"
      "located drive (file_id c) (join_path cur (title c)) d p" "mimeType d = folder_mime"
      by (auto simp: subfolder_queries_def)
    with c folder show ?thesis unfolding subfolder_queries_def using located.below by blast
  qed
qed

lemma for_each_visit_queries:
  assumes "for_each xs acc (visit rec keyword extension cur) = Some acc'"
    and "\<And>c a a'. c \<in> set xs \<Longrightarrow> mimeType c = folder_mime
           \<Longrightarrow> rec (file_id c) (join_path cur (title c)) a = Some a'
           \<Longrightarrow> \<exists>new. drive_log (snd a') = drive_log (snd a) @ InParents (file_id c) # new
                 \<and> set new = subfolder_queries drive (file_id c) (join_path cur (title c))"
  shows "\<exists>new. drive_log (snd acc') = drive_log (snd acc) @ new
           \<and> set new = (\<Union>c \<in> set xs. child_queries drive cur c)"
  using assms
proof (induction xs arbitrary: acc)
  case Nil
  then show ?case by simp
next
  case (Cons x xs)
  from Cons.prems(1) obtain mid where mid: "visit rec keyword extension cur x acc = Some mid"
    and rest: "for_each xs mid (visit rec keyword extension cur) = Some acc'"
    by (auto split: option.splits)
  have "\<exists>new1. drive_log (snd mid) = drive_log (snd acc) @ new1 \<and> set new1 = child_queries drive cur x"
  proof (cases "mimeType x = folder_mime")
    case True
    with mid have "rec (file_id x) (join_path cur (title x)) acc = Some mid" by (simp add: visit_def)
    from Cons.prems(2) [OF _ True this] obtain new where
      "drive_log (snd mid) = drive_log (snd acc) @ InParents (file_id x) # new"
      "set new = subfolder_queries drive (file_id x) (join_path cur (title x))" by auto
    with True have "drive_log (snd mid) = drive_log (snd acc) @ (InParents (file_id x) # new)
      \<and> set (InParents (file_id x) # new) = child_queries drive cur x"
      by (simp add: child_queries_def)
    then show ?thesis by blast
  next
    case False
    with mid show ?thesis by (auto simp: visit_def child_queries_def split: if_splits)
  qed
  then obtain new1 where new1: "drive_log (snd mid) = drive_log (snd acc) @ new1"
    "set new1 = child_queries drive cur x" by blast
  have "\<exists>new2. drive_log (snd acc') = drive_log (snd mid) @ new2
          \<and> set new2 = (\<Union>c \<in> set xs. child_queries drive cur c)"
    using rest Cons.prems(2) by (intro Cons.IH) auto
  then obtain new2 where new2: "drive_log (snd acc') = drive_log (snd mid) @ new2"
    "set new2 = (\<Union>c \<in> set xs. child_queries drive cur c)" by blast
  from new1 new2 have "drive_log (snd acc') = drive_log (snd acc) @ (new1 @ new2)
     \<and> set (new1 @ new2) = (\<Union>c \<in> set (x # xs). child_queries drive cur c)"
    by simp
  then show ?case by blast
qed

lemma recursive_search_queries:
  assumes "recursive_search n drive keyword extension folder_id cur acc = Some acc'"
  shows "\<exists>new. drive_log (snd acc') = drive_log (snd acc) @ InParents folder_id # new
           \<and> set new = subfolder_queries drive folder_id cur"
  using assms
proof (induction n arbitrary: folder_id cur acc acc')
  case 0
  then show ?case by simp
next
  case (Suc n)
  obtain found st where acc: "acc = (found, st)" by (cases acc)
  from Suc.prems have run: "for_each (ListFile drive (InParents folder_id))
       (found, st\<lparr>drive_log := drive_log st @ [InParents folder_id]\<rparr>)
       (visit (recursive_search n drive keyword extension) keyword extension cur) = Some acc'"
    unfolding acc recursive_search_step .
  from for_each_visit_queries [OF run, of drive] Suc.IH
  have "\<exists>new. drive_log (snd acc') = (drive_log st @ [InParents folder_id]) @ new
     \<and> set new = (\<Union>c \<in> set (ListFile drive (InParents folder_id)). child_queries drive cur c)"
    by simp
  then show ?case by (simp add: acc subfolder_queries_unfold)
qed

subsection \<open>The examples\<close>

lemma finite_tree_example: "finite_tree example_drive ''r''"
proof (rule finite_tree.node)
  fix c
  assume "c \<in> set (ListFile example_drive (InParents ''r''))" and "mimeType c = folder_mime"
  then have "file_id c = ''s''"
    by (auto simp: ListFile_def example_drive_def example_files_def mk_file_def folder_mime_def xlsx_mime_def)
  moreover have "finite_tree example_drive ''s''"
    by (rule finite_tree.node)
       (auto simp: ListFile_def example_drive_def example_files_def mk_file_def folder_mime_def xlsx_mime_def)
  ultimately show "finite_tree example_drive (file_id c)" by simp
qed

lemma looping_drive_cycle:
  "finite_tree drive folder_id \<Longrightarrow> drive = looping_drive \<Longrightarrow> folder_id \<noteq> ''a'' \<and> folder_id \<noteq> ''b''"
proof (induction rule: finite_tree.induct)
  case (node drive folder_id)
  have a: "mk_file ''a'' folder_mime ''a'' None [''b''] \<in> set (ListFile looping_drive (InParents ''b''))"
    by (simp add: ListFile_def looping_drive_def mk_file_def)
  have b: "mk_file ''b'' folder_mime ''b'' None [''a''] \<in> set (ListFile looping_drive (InParents ''a''))"
    by (simp add: ListFile_def looping_drive_def mk_file_def)
  show ?case
  proof (intro conjI notI)
    assume "folder_id = ''a''"
    with node.IH [of "mk_file ''b'' folder_mime ''b'' None [''a'']"] b node.prems
    show False by (simp add: mk_file_def)
  next
    assume "folder_id = ''b''"
    with node.IH [of "mk_file ''a'' folder_mime ''a'' None [''b'']"] a node.prems
    show False by (simp add: mk_file_def)
  qed
qed

lemma not_finite_tree_looping: "\<not> finite_tree looping_drive ''a''"
  using looping_drive_cycle by blast

lemma find_files_example:
  "find_files 2 example_drive ''r'' ''tx_curr'' ''.xlsx'' initial_state =
     Some ([\<lparr>name = ''tx_curr_q2.xlsx'', path = ''/2024/tx_curr_q2.xlsx'', found_id = ''f2'',
              download_url = None\<rparr>,
            \<lparr>name = ''TX_CURR_q1.xlsx'', path = ''/TX_CURR_q1.xlsx'', found_id = ''f1'',
              download_url = Some ''https://drive.test/f1''\<rparr>],
           initial_state\<lparr>drive_log := [InParents ''r'', InParents ''s'']\<rparr>)"
  by (simp add: find_files_def numeral_2_eq_2 recursive_search.simps(2) ListFile_def example_drive_def
      example_files_def mk_file_def folder_mime_def xlsx_mime_def initial_state_def join_path_def
      matches_def lower_def lower_char_def sublist_code suffix_to_prefix)

lemma find_files_example_none:
  "find_files 2 example_drive ''r'' ''budget'' ''.xlsx'' initial_state =
     Some ([], initial_state\<lparr>drive_log := [InParents ''r'', InParents ''s'']\<rparr>)"
  by (simp add: find_files_def numeral_2_eq_2 recursive_search.simps(2) example_defs)

section \<open>Search\<close>

text \<open>
  C1. For every finite acyclic folder tree rooted at \<open>folder_id\<close>, \<open>find_files\<close> returns
  (for every sufficiently large budget, with one and the same result) exactly the non-folder
  files located in that subtree whose title contains the keyword, both lowercased as the
  source compares them, and ends with the extension: no file outside the subtree and no
  folder appears in the result.
\<close>

theorem find_files_exact:
  assumes "finite_tree drive folder_id"
  shows "\<exists>found st'.
           (\<exists>n. \<forall>fuel \<ge> n. find_files fuel drive folder_id keyword extension st = Some (found, st'))
         \<and> set found =
             {entry f p | f p. located drive folder_id [] f p \<and> mimeType f \<noteq> folder_mime
                \<and> matches keyword extension f}"
proof -
  from recursive_search_returns [OF assms] obtain n where
    n: "\<And>cur acc. recursive_search n drive keyword extension folder_id cur acc \<noteq> None" by blast
  from n [of "[]" "([], st)"] obtain found st' where
    r: "recursive_search n drive keyword extension folder_id [] ([], st) = Some (found, st')" by auto
  have "\<forall>fuel \<ge> n. find_files fuel drive folder_id keyword extension st = Some (found, st')"
    unfolding find_files_def using recursive_search_fuel_mono [OF r] by blast
  moreover from recursive_search_collects [OF r]
  have "set found = hits drive keyword extension folder_id []" by simp
  ultimately show ?thesis unfolding hits_def by blast
qed

theorem find_files_exact_witness:
  "finite_tree example_drive ''r'' \<and>
   (\<exists>found st'.
      (\<exists>n. \<forall>fuel \<ge> n. find_files fuel example_drive ''r'' ''tx_curr'' ''.xlsx'' initial_state = Some (found, st'))
    \<and> set found =
        {entry f p | f p. located example_drive ''r'' [] f p \<and> mimeType f \<noteq> folder_mime
           \<and> matches ''tx_curr'' ''.xlsx'' f})"
  using find_files_exact [OF finite_tree_example] finite_tree_example by blast

text \<open>
  C4. \<open>find_files\<close> has no depth limit and no cycle detection: it returns, for every
  sufficiently large budget, on every finite acyclic folder tree; it never returns when the
  folders below \<open>folder_id\<close> do not form one; and when it returns it has listed
  \<open>folder_id\<close> first and then every subfolder of the subtree.
\<close>

theorem find_files_terminates_iff_acyclic:
  "(finite_tree drive folder_id \<longrightarrow>
      (\<exists>n. \<forall>fuel \<ge> n. find_files fuel drive folder_id keyword extension st \<noteq> None))
   \<and> (\<not> finite_tree drive folder_id \<longrightarrow>
      (\<forall>fuel. find_files fuel drive folder_id keyword extension st = None))
   \<and> (\<forall>fuel found st'. find_files fuel drive folder_id keyword extension st = Some (found, st') \<longrightarrow>
        (\<exists>new. drive_log st' = drive_log st @ InParents folder_id # new
           \<and> set new = {InParents (file_id c) | c p.
                located drive folder_id [] c p \<and> mimeType c = folder_mime}))"
proof (intro conjI impI allI)
  assume "finite_tree drive folder_id"
  from recursive_search_returns [OF this] obtain n where
    n: "\<And>cur acc. recursive_search n drive keyword extension folder_id cur acc \<noteq> None" by blast
  have "\<forall>fuel \<ge> n. find_files fuel drive folder_id keyword extension st \<noteq> None"
  proof (intro allI impI)
    fix fuel assume le: "n \<le> fuel"
    from n [of "[]" "([], st)"] obtain r where
      "recursive_search n drive keyword extension folder_id [] ([], st) = Some r" by auto
    from recursive_search_fuel_mono [OF this le]
    show "find_files fuel drive folder_id keyword extension st \<noteq> None" by (simp add: find_files_def)
  qed
  then show "\<exists>n. \<forall>fuel \<ge> n. find_files fuel drive folder_id keyword extension st \<noteq> None" ..
next
  fix fuel
  assume "\<not> finite_tree drive folder_id"
  then show "find_files fuel drive folder_id keyword extension st = None"
    unfolding find_files_def by (rule recursive_search_diverges)
next
  fix fuel found st'
  assume "find_files fuel drive folder_id keyword extension st = Some (found, st')"
  then have "recursive_search fuel drive keyword extension folder_id [] ([], st) = Some (found, st')"
    by (simp add: find_files_def)
  from recursive_search_queries [OF this]
  show "\<exists>new. drive_log st' = drive_log st @ InParents folder_id # new
           \<and> set new = {InParents (file_id c) | c p.
                located drive folder_id [] c p \<and> mimeType c = folder_mime}"
    by (simp add: subfolder_queries_def)
qed

theorem find_files_terminates_iff_acyclic_witness:
  "finite_tree example_drive ''r''
   \<and> (\<exists>n. \<forall>fuel \<ge> n. find_files fuel example_drive ''r'' ''tx_curr'' ''.xlsx'' initial_state \<noteq> None)
   \<and> \<not> finite_tree looping_drive ''a''
   \<and> (\<forall>fuel. find_files fuel looping_drive ''a'' ''tx_curr'' ''.xlsx'' initial_state = None)
   \<and> (\<exists>new. [InParents ''r'', InParents ''s''] = [] @ InParents ''r'' # new
           \<and> set new = {InParents (file_id c) | c p.
                located example_drive ''r'' [] c p \<and> mimeType c = folder_mime})"
proof -
  note ex = find_files_terminates_iff_acyclic
      [of example_drive "''r''" "''tx_curr''" "''.xlsx''" initial_state]
  note lp = find_files_terminates_iff_acyclic
      [of looping_drive "''a''" "''tx_curr''" "''.xlsx''" initial_state]
  from ex finite_tree_example
  have 1: "\<exists>n. \<forall>fuel \<ge> n. find_files fuel example_drive ''r'' ''tx_curr'' ''.xlsx'' initial_state \<noteq> None"
    by blast
  from lp not_finite_tree_looping
  have 2: "\<forall>fuel. find_files fuel looping_drive ''a'' ''tx_curr'' ''.xlsx'' initial_state = None"
    by blast
  from ex have "\<And>fuel found st'.
      find_files fuel example_drive ''r'' ''tx_curr'' ''.xlsx'' initial_state = Some (found, st')
      \<Longrightarrow> \<exists>new. drive_log st' = drive_log initial_state @ InParents ''r'' # new
           \<and> set new = {InParents (file_id c) | c p.
                located example_drive ''r'' [] c p \<and> mimeType c = folder_mime}"
    by blast
  from this [OF find_files_example]
  have 3: "\<exists>new. [InParents ''r'', InParents ''s''] = [] @ InParents ''r'' # new
           \<and> set new = {InParents (file_id c) | c p.
                located example_drive ''r'' [] c p \<and> mimeType c = folder_mime}"
    by (simp add: initial_state_def)
  from 1 2 3 finite_tree_example not_finite_tree_looping show ?thesis by blast
qed

text \<open>
  C8. The keyword test is case-insensitive (two keywords with the same lowercase form match
  the same files) and the extension test is a case-sensitive suffix test: a file titled
  \<open>DATA.XLSX\<close> contains the keyword \<open>data\<close> after lowercasing, matches the extension
  \<open>.XLSX\<close> and does not match \<open>.xlsx\<close>, so \<open>find_files\<close> leaves it out.
\<close>

theorem keyword_case_insensitive_extension_case_sensitive:
  "(matches keyword extension f \<longleftrightarrow>
      sublist (lower keyword) (lower (title f)) \<and> suffix extension (title f))
   \<and> (lower keyword' = lower keyword \<longrightarrow> matches keyword' extension f = matches keyword extension f)
   \<and> (title f = ''DATA.XLSX'' \<longrightarrow>
        sublist (lower ''data'') (lower (title f)) \<and> \<not> matches ''data'' ''.xlsx'' f
        \<and> matches ''data'' ''.XLSX'' f)
   \<and> find_files 1 example_drive ''s'' ''data'' ''.xlsx'' initial_state =
        Some ([], initial_state\<lparr>drive_log := [InParents ''s'']\<rparr>)
   \<and> find_files 1 example_drive ''s'' ''data'' ''.XLSX'' initial_state =
        Some ([\<lparr>name = ''DATA.XLSX'', path = ''/DATA.XLSX'', found_id = ''f3'',
                 download_url = Some ''https://drive.test/f3''\<rparr>],
              initial_state\<lparr>drive_log := [InParents ''s'']\<rparr>)"
proof (intro conjI impI)
  show "matches keyword extension f \<longleftrightarrow>
      sublist (lower keyword) (lower (title f)) \<and> suffix extension (title f)"
    by (simp add: matches_def)
next
  assume "lower keyword' = lower keyword"
  then show "matches keyword' extension f = matches keyword extension f"
    by (simp add: matches_def)
next
  assume t: "title f = ''DATA.XLSX''"
  show "sublist (lower ''data'') (lower (title f))"
    by (simp add: t lower_def lower_char_def sublist_code)
  show "\<not> matches ''data'' ''.xlsx'' f"
    by (simp add: t matches_def suffix_to_prefix)
  show "matches ''data'' ''.XLSX'' f"
    by (simp add: t matches_def lower_def lower_char_def sublist_code suffix_to_prefix)
next
  show "find_files 1 example_drive ''s'' ''data'' ''.xlsx'' initial_state =
        Some ([], initial_state\<lparr>drive_log := [InParents ''s'']\<rparr>)"
    by (simp add: find_files_def recursive_search.simps(2) example_defs)
next
  show "find_files 1 example_drive ''s'' ''data'' ''.XLSX'' initial_state =
        Some ([\<lparr>name = ''DATA.XLSX'', path = ''/DATA.XLSX'', found_id = ''f3'',
                 download_url = Some ''https://drive.test/f3''\<rparr>],
              initial_state\<lparr>drive_log := [InParents ''s'']\<rparr>)"
    by (simp add: find_files_def recursive_search.simps(2) example_defs)
qed

theorem keyword_case_insensitive_extension_case_sensitive_witness:
  "lower ''Tx_Curr'' = lower ''TX_CURR''
   \<and> title (mk_file ''DATA.XLSX'' xlsx_mime ''f3'' None [''s'']) = ''DATA.XLSX''
   \<and> matches ''Tx_Curr'' ''.xlsx'' (mk_file ''DATA.XLSX'' xlsx_mime ''f3'' None [''s''])
       = matches ''TX_CURR'' ''.xlsx'' (mk_file ''DATA.XLSX'' xlsx_mime ''f3'' None [''s''])
   \<and> sublist (lower ''data'') (lower ''DATA.XLSX'')
   \<and> \<not> matches ''data'' ''.xlsx'' (mk_file ''DATA.XLSX'' xlsx_mime ''f3'' None [''s''])
   \<and> matches ''data'' ''.XLSX'' (mk_file ''DATA.XLSX'' xlsx_mime ''f3'' None [''s''])"
proof -
  have a: "lower ''Tx_Curr'' = lower ''TX_CURR''" by (simp add: lower_def lower_char_def)
  have b: "title (mk_file ''DATA.XLSX'' xlsx_mime ''f3'' None [''s'']) = ''DATA.XLSX''"
    by (simp add: mk_file_def)
  from keyword_case_insensitive_extension_case_sensitive
    [of "''TX_CURR''" "''.xlsx''" "mk_file ''DATA.XLSX'' xlsx_mime ''f3'' None [''s'']" "''Tx_Curr''"]
    a b
  show ?thesis by simp
qed

section \<open>Root folders\<close>

lemma map_of_fold_update:
  "map_of (fold (\<lambda>f d. AList.update (title f) (file_id f) d) fl al)
     = fold (\<lambda>f m. m(title f \<mapsto> file_id f)) fl (map_of al)"
  by (induction fl arbitrary: al) (simp_all add: AList.update_conv')

lemma distinct_fold_update:
  "distinct (map fst al)
   \<Longrightarrow> distinct (map fst (fold (\<lambda>f d. AList.update (title f) (file_id f) d) fl al))"
  by (induction fl arbitrary: al) (simp_all add: AList.distinct_update)

lemma fold_upd_last:
  "fold (\<lambda>f m. m(title f \<mapsto> file_id f)) fl m t =
     (if \<exists>h \<in> set fl. title h = t
      then Some (file_id (last (filter (\<lambda>h. title h = t) fl)))
      else m t)"
proof (induction fl arbitrary: m)
  case Nil
  then show ?case by simp
next
  case (Cons x xs)
  let ?F = "\<lambda>f m. m(title f \<mapsto> file_id f)"
  have "fold ?F (x # xs) m t = fold ?F xs (m(title x \<mapsto> file_id x)) t"
    by (simp only: fold_simps comp_apply)
  also have "\<dots> = (if \<exists>h \<in> set xs. title h = t
      then Some (file_id (last (filter (\<lambda>h. title h = t) xs)))
      else (m(title x \<mapsto> file_id x)) t)"
    by (rule Cons.IH)
  finally have step: "fold ?F (x # xs) m t = (if \<exists>h \<in> set xs. title h = t
      then Some (file_id (last (filter (\<lambda>h. title h = t) xs)))
      else (m(title x \<mapsto> file_id x)) t)" .
  show ?case
  proof (cases "\<exists>h \<in> set xs. title h = t")
    case True
    then have "filter (\<lambda>h. title h = t) xs \<noteq> []" by (simp add: filter_empty_conv)
    with True show ?thesis unfolding step by simp
  next
    case False
    then have "filter (\<lambda>h. title h = t) xs = []" by (simp add: filter_empty_conv)
    with False show ?thesis unfolding step by simp
  qed
qed

lemma root_folders_lookup:
  assumes "get_root_folders drive st = (root_folders, st')"
  shows "distinct (map fst root_folders)"
    and "map_of root_folders t =
      (if \<exists>h \<in> set (ListFile drive AllFolders). title h = t
       then Some (file_id (last (filter (\<lambda>h. title h = t) (ListFile drive AllFolders))))
       else None)"
proof -
  from assms have rf: "root_folders =
      fold (\<lambda>f d. AList.update (title f) (file_id f) d) (ListFile drive AllFolders) []"
    by (simp add: get_root_folders_def Let_def)
  show "distinct (map fst root_folders)" unfolding rf by (rule distinct_fold_update) simp
  show "map_of root_folders t =
      (if \<exists>h \<in> set (ListFile drive AllFolders). title h = t
       then Some (file_id (last (filter (\<lambda>h. title h = t) (ListFile drive AllFolders))))
       else None)"
    unfolding rf map_of_fold_update fold_upd_last by simp
qed

text \<open>
  C9. \<open>get_root_folders\<close> returns a dictionary keyed by title. When a folder \<open>f\<close> of the
  listing is followed by a folder with the same title, every title has one id, the id kept
  for that title is the one of the last such later entry, and (folder ids being distinct) the
  id of \<open>f\<close> is not a value of the dictionary: \<open>main\<close>, which looks the selected title up
  in it, cannot reach \<open>f\<close>.
\<close>

theorem get_root_folders_later_title_wins:
  assumes run: "get_root_folders drive st = (root_folders, st')"
    and listing: "ListFile drive AllFolders = pre @ f # post"
    and later: "g \<in> set post" "title g = title f"
  shows "distinct (map fst root_folders)
     \<and> map_of root_folders (title f) = Some (file_id (last (filter (\<lambda>h. title h = title f) post)))
     \<and> last (filter (\<lambda>h. title h = title f) post) \<in> set post
     \<and> (distinct (map file_id (ListFile drive AllFolders)) \<longrightarrow> file_id f \<notin> snd ` set root_folders)"
proof (intro conjI impI)
  let ?same = "\<lambda>t h. title h = t"
  let ?fl = "ListFile drive AllFolders"
  show d: "distinct (map fst root_folders)" by (rule root_folders_lookup(1) [OF run])
  from later have ne: "filter (?same (title f)) post \<noteq> []" by (auto simp: filter_empty_conv)
  then have last_eq: "last (filter (?same (title f)) ?fl) = last (filter (?same (title f)) post)"
    by (simp add: listing)
  from later have ex: "\<exists>h \<in> set ?fl. title h = title f" by (auto simp: listing)
  show lk: "map_of root_folders (title f) = Some (file_id (last (filter (?same (title f)) post)))"
    using root_folders_lookup(2) [OF run, of "title f"] ex last_eq by simp
  from ne have "last (filter (?same (title f)) post) \<in> set (filter (?same (title f)) post)"
    by (rule last_in_set)
  then show in_post: "last (filter (?same (title f)) post) \<in> set post" by simp
  assume ids: "distinct (map file_id ?fl)"
  show "file_id f \<notin> snd ` set root_folders"
  proof
    assume "file_id f \<in> snd ` set root_folders"
    then obtain t where "(t, file_id f) \<in> set root_folders" by auto
    with d have t: "map_of root_folders t = Some (file_id f)" by simp
    with root_folders_lookup(2) [OF run, of t]
    have ex_t: "\<exists>h \<in> set ?fl. title h = t"
      and id_t: "file_id (last (filter (?same t) ?fl)) = file_id f"
      by (auto split: if_splits)
    from ex_t have "filter (?same t) ?fl \<noteq> []" by (auto simp: filter_empty_conv)
    then have "last (filter (?same t) ?fl) \<in> set (filter (?same t) ?fl)" by (rule last_in_set)
    then have l_in: "last (filter (?same t) ?fl) \<in> set ?fl"
      and l_title: "title (last (filter (?same t) ?fl)) = t" by auto
    have f_in: "f \<in> set ?fl" by (simp add: listing)
    from ids have "inj_on file_id (set ?fl)" by (simp add: distinct_map)
    with l_in f_in id_t have "last (filter (?same t) ?fl) = f" by (auto dest: inj_onD)
    with l_title have "t = title f" by simp
    with t lk have "file_id (last (filter (?same (title f)) post)) = file_id f" by simp
    moreover from in_post
    have "file_id (last (filter (?same (title f)) post)) \<in> file_id ` set post" by (rule imageI)
    ultimately have "file_id f \<in> file_id ` set post" by simp
    with ids show False by (simp add: listing)
  qed
qed

theorem get_root_folders_later_title_wins_witness:
  "get_root_folders same_title_drive initial_state =
     ([(''data'', ''id3''), (''other'', ''id2'')], initial_state\<lparr>drive_log := [AllFolders]\<rparr>)
   \<and> map_of [(''data'', ''id3''), (''other'', ''id2'')] ''data'' = Some ''id3''
   \<and> ''id1'' \<notin> snd ` set [(''data'', ''id3''), (''other'', ''id2'')]"
proof -
  let ?f = "mk_file ''data'' folder_mime ''id1'' None []"
  let ?o = "mk_file ''other'' folder_mime ''id2'' None []"
  let ?g = "mk_file ''data'' folder_mime ''id3'' None []"
  have run: "get_root_folders same_title_drive initial_state =
     ([(''data'', ''id3''), (''other'', ''id2'')], initial_state\<lparr>drive_log := [AllFolders]\<rparr>)"
    by (simp add: get_root_folders_def same_title_drive_def ListFile_def mk_file_def initial_state_def)
  have listing: "ListFile same_title_drive AllFolders = [] @ ?f # [?o, ?g]"
    by (simp add: same_title_drive_def ListFile_def mk_file_def)
  have later: "?g \<in> set [?o, ?g]" "title ?g = title ?f" by (simp_all add: mk_file_def)
  have ids: "distinct (map file_id (ListFile same_title_drive AllFolders))"
    by (simp add: same_title_drive_def ListFile_def mk_file_def)
  from get_root_folders_later_title_wins [OF run listing later] ids run
  show ?thesis by (simp add: mk_file_def)
qed

section \<open>Download and combination\<close>

lemma load_excel_loop_eq:
  "load_excel_loop env headers files_info (dfs, st) =
     (dfs @ concat (map (\<lambda>fi. frames_of (attempt env headers fi)) files_info),
      st\<lparr>ui := ui st @ concat (map (\<lambda>fi. warnings_of fi (attempt env headers fi)) files_info),
         http_log := http_log st @ concat (map requested files_info)\<rparr>)"
proof (induction files_info arbitrary: dfs st)
  case Nil
  then show ?case by simp
next
  case (Cons fi rest)
  show ?case
    by (simp add: Cons.IH attempt_def frames_of_def warnings_of_def requested_def emit_def
        split: option.splits sum.splits)
qed

text \<open>
  C5. \<open>load_excel_files\<close> handles the entries one by one in list order, each on its own:
  an entry issues at most one request (none when it has no usable link), and ends either
  with its frame appended or with one warning, after which the loop goes on with the next
  entry. The requests, frames and warnings of the whole call are those of the entries, in
  list order.
\<close>

theorem load_excel_files_one_request_per_file:
  "load_excel_files env drive files_info st =
     (concat (map (\<lambda>fi. frames_of (attempt env (bearer drive) fi)) files_info),
      st\<lparr>ui := ui st @ concat (map (\<lambda>fi. warnings_of fi (attempt env (bearer drive) fi)) files_info),
         http_log := http_log st @ concat (map requested files_info)\<rparr>)
   \<and> length (requested fi) \<le> 1
   \<and> length (frames_of (attempt env (bearer drive) fi))
       + length (warnings_of fi (attempt env (bearer drive) fi)) = 1
   \<and> (requested fi = [] \<longleftrightarrow> attempt env (bearer drive) fi = None)"
proof (intro conjI)
  show "load_excel_files env drive files_info st =
     (concat (map (\<lambda>fi. frames_of (attempt env (bearer drive) fi)) files_info),
      st\<lparr>ui := ui st @ concat (map (\<lambda>fi. warnings_of fi (attempt env (bearer drive) fi)) files_info),
         http_log := http_log st @ concat (map requested files_info)\<rparr>)"
    unfolding load_excel_files_def Let_def bearer_def load_excel_loop_eq by simp
next
  show "length (requested fi) \<le> 1"
    by (simp add: requested_def split: option.splits)
next
  show "length (frames_of (attempt env (bearer drive) fi))
       + length (warnings_of fi (attempt env (bearer drive) fi)) = 1"
    by (simp add: frames_of_def warnings_of_def split: option.splits sum.splits)
next
  show "requested fi = [] \<longleftrightarrow> attempt env (bearer drive) fi = None"
    by (simp add: requested_def attempt_def split: option.splits)
qed

text \<open>
  C10. When \<open>find_files\<close> returns the empty list, \<open>load_data\<close> returns
  \<open>(None, None)\<close> in the state the search left, whatever the network and the parser would
  do: no request has been issued, no frame built and nothing shown.
\<close>

theorem load_data_nothing_found:
  assumes "find_files fuel drive folder_id keyword extension st = Some ([], st1)"
  shows "load_data fuel env drive folder_id keyword extension st = Some (Inr (None, None), st1)
     \<and> http_log st1 = http_log st \<and> ui st1 = ui st"
proof -
  from assms have "recursive_search fuel drive keyword extension folder_id [] ([], st) = Some ([], st1)"
    by (simp add: find_files_def)
  from recursive_search_frame [OF this] have "http_log st1 = http_log st \<and> ui st1 = ui st" by simp
  with assms show ?thesis by (simp add: load_data_def)
qed

theorem load_data_nothing_found_witness:
  "find_files 2 example_drive ''r'' ''budget'' ''.xlsx'' initial_state =
     Some ([], initial_state\<lparr>drive_log := [InParents ''r'', InParents ''s'']\<rparr>)
   \<and> load_data 2 offline_env example_drive ''r'' ''budget'' ''.xlsx'' initial_state =
     Some (Inr (None, None), initial_state\<lparr>drive_log := [InParents ''r'', InParents ''s'']\<rparr>)
   \<and> http_log (initial_state\<lparr>drive_log := [InParents ''r'', InParents ''s'']\<rparr>) = []"
  using load_data_nothing_found [OF find_files_example_none, of offline_env] find_files_example_none
  by (simp add: initial_state_def)

lemma load_excel_files_eq:
  "load_excel_files env drive files_info st =
     (concat (map (\<lambda>fi. frames_of (attempt env (bearer drive) fi)) files_info),
      st\<lparr>ui := ui st @ concat (map (\<lambda>fi. warnings_of fi (attempt env (bearer drive) fi)) files_info),
         http_log := http_log st @ concat (map requested files_info)\<rparr>)"
  unfolding load_excel_files_def Let_def bearer_def load_excel_loop_eq by simp

lemma pd_concat_rows:
  assumes "pd_concat result_dtype cast objs = Inr df"
  shows "objs \<noteq> []"
    and "rows df = enumerate 0 (map (reindex (columns df) cast) (concat (map (\<lambda>df. map snd (rows df)) objs)))"
  using assms by (auto simp: pd_concat_def Let_def split: if_splits)

text \<open>
  C2. The dataset that \<open>load_data\<close> returns is the row-wise union of the spreadsheets that
  were downloaded and parsed: of the frames of the successful attempts over the files found,
  in the order of the files. Its number of rows is the sum of their row counts, its index is
  0, ..., n - 1, and its rows are their rows in that order, each brought to the combined
  columns.
\<close>

theorem load_data_row_union:
  assumes "load_data fuel env drive folder_id keyword extension st
             = Some (Inr (Some final_df, files_found), st')"
  shows "\<exists>found st1 dfs.
           find_files fuel drive folder_id keyword extension st = Some (found, st1)
         \<and> files_found = Some found
         \<and> dfs = concat (map (\<lambda>fi. frames_of (attempt env (bearer drive) fi)) found)
         \<and> load_excel_files env drive found st1 = (dfs, st')
         \<and> length (rows final_df) = sum_list (map (\<lambda>df. length (rows df)) dfs)
         \<and> map fst (rows final_df) = [0..<length (rows final_df)]
         \<and> map snd (rows final_df) =
             map (reindex (columns final_df) (astype env)) (concat (map (\<lambda>df. map snd (rows df)) dfs))"
proof -
  from assms obtain found st1 where
    ff: "find_files fuel drive folder_id keyword extension st = Some (found, st1)"
    by (auto simp: load_data_def split: option.splits)
  let ?dfs = "concat (map (\<lambda>fi. frames_of (attempt env (bearer drive) fi)) found)"
  obtain st2 where le: "load_excel_files env drive found st1 = (?dfs, st2)"
    by (simp add: load_excel_files_eq)
  from assms ff le have st': "st2 = st'" and fs: "files_found = Some found"
    and cat: "pd_concat (concat_dtype env) (astype env) ?dfs = Inr final_df"
    by (auto simp: load_data_def split: if_splits sum.splits)
  from pd_concat_rows(2) [OF cat]
  have r: "rows final_df = enumerate 0
      (map (reindex (columns final_df) (astype env)) (concat (map (\<lambda>df. map snd (rows df)) ?dfs)))" .
  have len: "length (concat (map (\<lambda>df. map snd (rows df)) ?dfs))
      = sum_list (map (\<lambda>df. length (rows df)) ?dfs)"
    by (simp add: length_concat comp_def)
  from r len have "length (rows final_df) = sum_list (map (\<lambda>df. length (rows df)) ?dfs)"
    by simp
  moreover from r have "map fst (rows final_df) = [0..<length (rows final_df)]"
    by (simp add: enumerate_eq_zip)
  moreover from r have "map snd (rows final_df) =
      map (reindex (columns final_df) (astype env)) (concat (map (\<lambda>df. map snd (rows df)) ?dfs))"
    by (simp add: enumerate_eq_zip)
  ultimately show ?thesis using ff fs le st' by blast
qed

lemma find_files_workbooks:
  "find_files 1 workbooks_drive ''r'' ''tx_curr'' ''.xlsx'' initial_state =
     Some ([\<lparr>name = ''tx_curr_a.xlsx'', path = ''/tx_curr_a.xlsx'', found_id = ''a'',
              download_url = Some ''https://drive.test/a''\<rparr>,
            \<lparr>name = ''tx_curr_c.xlsx'', path = ''/tx_curr_c.xlsx'', found_id = ''c'',
              download_url = Some ''https://drive.test/c''\<rparr>,
            \<lparr>name = ''tx_curr_b.xlsx'', path = ''/tx_curr_b.xlsx'', found_id = ''b'',
              download_url = Some ''https://drive.test/b''\<rparr>],
           initial_state\<lparr>drive_log := [InParents ''r'']\<rparr>)"
  by (simp add: find_files_def recursive_search.simps(2) ListFile_def workbooks_drive_def mk_file_def
      folder_mime_def xlsx_mime_def initial_state_def join_path_def matches_def lower_def
      lower_char_def sublist_code suffix_to_prefix)

lemma load_data_workbooks:
  "\<exists>final_df st'.
     load_data 1 workbooks_env workbooks_drive ''r'' ''tx_curr'' ''.xlsx'' initial_state
       = Some (Inr (Some final_df,
                    Some [\<lparr>name = ''tx_curr_a.xlsx'', path = ''/tx_curr_a.xlsx'', found_id = ''a'',
                            download_url = Some ''https://drive.test/a''\<rparr>,
                          \<lparr>name = ''tx_curr_c.xlsx'', path = ''/tx_curr_c.xlsx'', found_id = ''c'',
                            download_url = Some ''https://drive.test/c''\<rparr>,
                          \<lparr>name = ''tx_curr_b.xlsx'', path = ''/tx_curr_b.xlsx'', found_id = ''b'',
                            download_url = Some ''https://drive.test/b''\<rparr>]), st')
     \<and> columns final_df = [(''site'', Object), (''tx_curr'', Float64)]
     \<and> map fst (rows final_df) = [0, 1, 2]
     \<and> map (\<lambda>r. snd r ''site'') (rows final_df)
         = [Some (TextCell ''A''), Some (TextCell ''B''), Some (TextCell ''C'')]
     \<and> map (\<lambda>r. snd r ''tx_curr'') (rows final_df)
         = [Some (FloatCell 12 0), Some (FloatCell 7 0), None]
     \<and> http_log st' = [''https://drive.test/a'', ''https://drive.test/c'', ''https://drive.test/b'']"
  unfolding load_data_def find_files_workbooks
  by (simp add: load_excel_files_def workbooks_env_def example_env_def
      emit_def pd_concat_def example_frame_def site_frame_def enumerate_eq_zip reindex_def
      Let_def initial_state_def upt_rec)

theorem load_data_row_union_witness:
  "\<exists>final_df files_found st' found st1 dfs.
     load_data 1 workbooks_env workbooks_drive ''r'' ''tx_curr'' ''.xlsx'' initial_state
       = Some (Inr (Some final_df, files_found), st')
     \<and> find_files 1 workbooks_drive ''r'' ''tx_curr'' ''.xlsx'' initial_state = Some (found, st1)
     \<and> files_found = Some found
     \<and> dfs = concat (map (\<lambda>fi. frames_of (attempt workbooks_env (bearer workbooks_drive) fi)) found)
     \<and> dfs = [example_frame, site_frame]
     \<and> load_excel_files workbooks_env workbooks_drive found st1 = (dfs, st')
     \<and> length (rows final_df) = sum_list (map (\<lambda>df. length (rows df)) dfs)
     \<and> length (rows final_df) = 3
     \<and> map fst (rows final_df) = [0..<length (rows final_df)]
     \<and> map fst (rows final_df) = [0, 1, 2]
     \<and> map snd (rows final_df) =
         map (reindex (columns final_df) (astype workbooks_env))
           (concat (map (\<lambda>df. map snd (rows df)) dfs))
     \<and> map (\<lambda>r. snd r ''site'') (rows final_df)
         = [Some (TextCell ''A''), Some (TextCell ''B''), Some (TextCell ''C'')]"
proof -
  let ?found = "[\<lparr>name = ''tx_curr_a.xlsx'', path = ''/tx_curr_a.xlsx'', found_id = ''a'',
                   download_url = Some ''https://drive.test/a''\<rparr>,
                 \<lparr>name = ''tx_curr_c.xlsx'', path = ''/tx_curr_c.xlsx'', found_id = ''c'',
                   download_url = Some ''https://drive.test/c''\<rparr>,
                 \<lparr>name = ''tx_curr_b.xlsx'', path = ''/tx_curr_b.xlsx'', found_id = ''b'',
                   download_url = Some ''https://drive.test/b''\<rparr>]"
  from load_data_workbooks obtain final_df st' where
    run: "load_data 1 workbooks_env workbooks_drive ''r'' ''tx_curr'' ''.xlsx'' initial_state
       = Some (Inr (Some final_df, Some ?found), st')"
    and idx: "map fst (rows final_df) = [0, 1, 2]"
    and site: "map (\<lambda>r. snd r ''site'') (rows final_df)
         = [Some (TextCell ''A''), Some (TextCell ''B''), Some (TextCell ''C'')]"
    by (elim exE conjE) (rule that, assumption+)
  from load_data_row_union [OF run] obtain found st1 dfs where
    u1: "find_files 1 workbooks_drive ''r'' ''tx_curr'' ''.xlsx'' initial_state = Some (found, st1)"
    and u2: "Some ?found = Some found"
    and u3: "dfs = concat (map (\<lambda>fi. frames_of (attempt workbooks_env (bearer workbooks_drive) fi)) found)"
    and u4: "load_excel_files workbooks_env workbooks_drive found st1 = (dfs, st')"
    and u5: "length (rows final_df) = sum_list (map (\<lambda>df. length (rows df)) dfs)"
    and u6: "map fst (rows final_df) = [0..<length (rows final_df)]"
    and u7: "map snd (rows final_df) =
         map (reindex (columns final_df) (astype workbooks_env))
           (concat (map (\<lambda>df. map snd (rows df)) dfs))"
    by (elim exE conjE) (rule that, assumption+)
  from u2 u3 have dfs: "dfs = [example_frame, site_frame]"
    by (auto simp: attempt_def frames_of_def workbooks_env_def example_env_def)
  from idx have len: "length (rows final_df) = 3"
    using length_map [of fst "rows final_df"] by simp
  show ?thesis
    by (intro exI conjI) (rule run u1 u2 u3 dfs u4 u5 len u6 idx u7 site)+
qed

text \<open>
  C3. Not every failure stays inside \<open>load_data\<close>. Here two files match; one has no
  download link and the request for the other is refused. Both are reported by a warning, the
  list of frames stays empty, and \<open>pd.concat\<close> raises \<open>ValueError\<close>, which
  \<open>load_data\<close> does not catch.
\<close>

theorem load_data_raises_when_every_download_fails:
  "load_data 2 offline_env example_drive ''r'' ''tx_curr'' ''.xlsx'' initial_state =
     Some (Inl (ValueError ''No objects to concatenate''),
           initial_state
             \<lparr>ui := [UI Page Warning ''Impossible de telecharger tx_curr_q2.xlsx'',
                     UI Page Warning ''Echec du chargement de TX_CURR_q1.xlsx : Connection refused''],
              drive_log := [InParents ''r'', InParents ''s''],
              http_log := [''https://drive.test/f1'']\<rparr>)"
  by (simp add: load_data_def find_files_example load_excel_files_def offline_env_def example_env_def
      emit_def pd_concat_def) (simp add: initial_state_def)

section \<open>The page\<close>

lemma authenticate_drive_frame:
  assumes "authenticate_drive w st = (r, st')"
  shows "drive_log st' = drive_log st \<and> http_log st' = http_log st \<and> (\<exists>more. ui st' = ui st @ more)"
  using assms
  by (auto simp: authenticate_drive_def emit_def split: if_splits sum.splits option.splits)

text \<open>
  C6. When neither \<open>credentials.json\<close> nor \<open>client_secrets.json\<close> exists,
  \<open>authenticate_drive\<close> shows the sidebar error and returns \<open>None\<close>; \<open>main\<close> then
  ends, for any budget, without a Drive listing or a download, and when the login button
  is not pressed it returns with just the header and the error on the page.
\<close>

theorem missing_credentials_stops:
  assumes "\<not> credentials_file (first_login env)" and "\<not> client_secrets_file (first_login env)"
  shows "authenticate_drive (first_login env) st =
           (Inr None, emit (UI Sidebar Error ''client_secrets.json manquant.'') st)
     \<and> (\<exists>out st' more.
           main fuel env inp st = Some (out, st')
         \<and> drive_log st' = drive_log st \<and> http_log st' = http_log st
         \<and> ui st' = ui st @ [UI Sidebar Header ''Authentification'',
                              UI Sidebar Error ''client_secrets.json manquant.''] @ more
         \<and> (\<not> login_button inp \<longrightarrow> out = Returned \<and> more = []))"
proof
  show first: "authenticate_drive (first_login env) st =
           (Inr None, emit (UI Sidebar Error ''client_secrets.json manquant.'') st)" for st
    using assms by (simp add: authenticate_drive_def)
  let ?st1 = "emit (UI Sidebar Error ''client_secrets.json manquant.'')
                (emit (UI Sidebar Header ''Authentification'') st)"
  show "\<exists>out st' more.
           main fuel env inp st = Some (out, st')
         \<and> drive_log st' = drive_log st \<and> http_log st' = http_log st
         \<and> ui st' = ui st @ [UI Sidebar Header ''Authentification'',
                              UI Sidebar Error ''client_secrets.json manquant.''] @ more
         \<and> (\<not> login_button inp \<longrightarrow> out = Returned \<and> more = [])"
  proof (cases "login_button inp")
    case False
    then have "main fuel env inp st = Some (Returned, ?st1)"
      by (simp add: main_def first)
    with False show ?thesis by (simp add: emit_def)
  next
    case True
    obtain r st2 where second: "authenticate_drive (second_login env) ?st1 = (r, st2)"
      by (cases "authenticate_drive (second_login env) ?st1")
    from authenticate_drive_frame [OF second] obtain more where
      frame: "drive_log st2 = drive_log st" "http_log st2 = http_log st"
        "ui st2 = ui st @ [UI Sidebar Header ''Authentification'',
                           UI Sidebar Error ''client_secrets.json manquant.''] @ more"
      by (auto simp: emit_def)
    from True second have "\<exists>out. main fuel env inp st = Some (out, st2)"
      by (simp add: main_def first split: sum.splits option.splits)
    with frame True show ?thesis by blast
  qed
qed

theorem missing_credentials_stops_witness:
  "\<not> credentials_file (first_login no_credentials_env)
   \<and> \<not> client_secrets_file (first_login no_credentials_env)
   \<and> \<not> login_button example_input
   \<and> authenticate_drive (first_login no_credentials_env) initial_state =
           (Inr None, emit (UI Sidebar Error ''client_secrets.json manquant.'') initial_state)
   \<and> main 0 no_credentials_env example_input initial_state =
        Some (Returned,
              initial_state\<lparr>ui := [UI Sidebar Header ''Authentification'',
                                   UI Sidebar Error ''client_secrets.json manquant.'']\<rparr>)"
proof -
  have a: "\<not> credentials_file (first_login no_credentials_env)"
    and b: "\<not> client_secrets_file (first_login no_credentials_env)"
    and c: "\<not> login_button example_input"
    by (simp_all add: no_credentials_env_def no_credentials_world_def example_input_def)
  from missing_credentials_stops [OF a b, of initial_state 0 example_input] c
  obtain out st' where run: "main 0 no_credentials_env example_input initial_state = Some (out, st')"
    and "out = Returned"
    and "ui st' = ui initial_state @ [UI Sidebar Header ''Authentification'',
                              UI Sidebar Error ''client_secrets.json manquant.'']"
    by auto
  moreover have "main 0 no_credentials_env example_input initial_state =
        Some (Returned,
              initial_state\<lparr>ui := [UI Sidebar Header ''Authentification'',
                                   UI Sidebar Error ''client_secrets.json manquant.'']\<rparr>)"
    by (simp add: main_def authenticate_drive_def no_credentials_env_def no_credentials_world_def
        example_input_def emit_def initial_state_def)
  ultimately show ?thesis
    using a b c missing_credentials_stops [OF a b, of initial_state 0 example_input] by simp
qed

lemma plot_columns_ui:
  assumes "plot_columns env df cols st = (r, st')"
  shows "\<exists>new. ui st' = ui st @ new
     \<and> prefix (filter is_warning new)
         (map (\<lambda>(col, t). non_numeric_warning col) (filter (\<lambda>(col, t). \<not> is_numeric_dtype t) cols))
     \<and> (r = None \<longrightarrow> filter is_warning new =
         map (\<lambda>(col, t). non_numeric_warning col) (filter (\<lambda>(col, t). \<not> is_numeric_dtype t) cols))"
  using assms
proof (induction cols arbitrary: st)
  case Nil
  then show ?case by simp
next
  case (Cons c rest)
  obtain col t where c: "c = (col, t)" by (cases c)
  let ?W = "\<lambda>cols. map (\<lambda>(col, t). non_numeric_warning col)
                    (filter (\<lambda>(col, t). \<not> is_numeric_dtype t) cols)"
  show ?case
  proof (cases "is_numeric_dtype t")
    case True
    show ?thesis
    proof (cases "plot env df col")
      case (Inl e)
      with Cons.prems True c have "st' = st" and "r = Some e" by simp_all
      then have "ui st' = ui st @ [] \<and> prefix (filter is_warning []) (?W (c # rest))
         \<and> (r = None \<longrightarrow> filter is_warning [] = ?W (c # rest))" by simp
      then show ?thesis by blast
    next
      case (Inr u)
      with Cons.prems True c
      have "plot_columns env df rest (emit (UI Page Pyplot col) st) = (r, st')" by simp
      from Cons.IH [OF this] obtain new where
        new: "ui st' = ui (emit (UI Page Pyplot col) st) @ new"
          "prefix (filter is_warning new) (?W rest)"
          "r = None \<longrightarrow> filter is_warning new = ?W rest" by blast
      with True c have "ui st' = ui st @ (UI Page Pyplot col # new)
         \<and> prefix (filter is_warning (UI Page Pyplot col # new)) (?W (c # rest))
         \<and> (r = None \<longrightarrow> filter is_warning (UI Page Pyplot col # new) = ?W (c # rest))"
        by (simp add: emit_def is_warning_def)
      then show ?thesis by blast
    qed
  next
    case False
    with Cons.prems c
    have "plot_columns env df rest (emit (non_numeric_warning col) st) = (r, st')" by simp
    from Cons.IH [OF this] obtain new where
      new: "ui st' = ui (emit (non_numeric_warning col) st) @ new"
        "prefix (filter is_warning new) (?W rest)"
        "r = None \<longrightarrow> filter is_warning new = ?W rest" by blast
    have w: "is_warning (non_numeric_warning col)"
      by (simp add: is_warning_def non_numeric_warning_def)
    from new False c w have "ui st' = ui st @ (non_numeric_warning col # new)
       \<and> prefix (filter is_warning (non_numeric_warning col # new)) (?W (c # rest))
       \<and> (r = None \<longrightarrow> filter is_warning (non_numeric_warning col # new) = ?W (c # rest))"
      by (simp add: emit_def)
    then show ?thesis by blast
  qed
qed

lemma rejected_number_columns:
  "filter (\<lambda>(col, t). \<not> is_numeric_dtype t) (filter (\<lambda>(col, t). np_number t) cols)
     = filter (\<lambda>(col, t). np_number t \<and> \<not> is_numeric_dtype t) cols"
  by (auto intro: filter_cong simp: case_prod_beta)

text \<open>
  C7, as stated, fails: a text column is not numeric, and the analysis tab of a non-empty
  dataset runs to its end without a warning for it.
\<close>

theorem text_column_gets_no_warning:
  "(''site'', Object) \<in> set (columns text_frame) \<and> \<not> is_numeric_dtype Object
   \<and> \<not> empty text_frame
   \<and> fst (analysis_tab example_env (Some text_frame) initial_state) = None
   \<and> non_numeric_warning ''site''
        \<notin> set (ui (snd (analysis_tab example_env (Some text_frame) initial_state)))"
  by (simp add: text_frame_def is_numeric_dtype_def np_number_def empty_def analysis_tab_def emit_def
      initial_state_def non_numeric_warning_def example_env_def)

text \<open>
  C7, amended. On a non-empty dataset the analysis tab goes through the columns that
  \<open>select_dtypes(include=['number'])\<close> keeps, in column order, and shows the warning for
  those of them that \<open>is_numeric_dtype\<close> rejects, until a rendering call raises: the
  warnings shown are an initial part of the warnings for these columns, and all of them when
  the tab runs to its end. A column that \<open>select_dtypes\<close> drops gets no message.
\<close>

theorem analysis_tab_warnings:
  assumes "\<not> empty df" and "analysis_tab env (Some df) st = (r, st')"
  shows "\<exists>new. ui st' = ui st @ new
     \<and> prefix (filter is_warning new)
         (map (\<lambda>(col, t). non_numeric_warning col)
            (filter (\<lambda>(col, t). np_number t \<and> \<not> is_numeric_dtype t) (columns df)))
     \<and> (r = None \<longrightarrow> filter is_warning new =
         map (\<lambda>(col, t). non_numeric_warning col)
           (filter (\<lambda>(col, t). np_number t \<and> \<not> is_numeric_dtype t) (columns df)))"
proof (cases "describe env df")
  case (Inl e)
  with assms have "ui st' = ui st @ [UI Page Markdown ''### Statistiques descriptives'']"
    and "r = Some e"
    by (auto simp: analysis_tab_def emit_def)
  then have "ui st' = ui st @ [UI Page Markdown ''### Statistiques descriptives'']
     \<and> prefix (filter is_warning [UI Page Markdown ''### Statistiques descriptives''])
         (map (\<lambda>(col, t). non_numeric_warning col)
            (filter (\<lambda>(col, t). np_number t \<and> \<not> is_numeric_dtype t) (columns df)))
     \<and> (r = None \<longrightarrow> filter is_warning [UI Page Markdown ''### Statistiques descriptives''] =
         map (\<lambda>(col, t). non_numeric_warning col)
           (filter (\<lambda>(col, t). np_number t \<and> \<not> is_numeric_dtype t) (columns df)))"
    by (simp add: is_warning_def)
  then show ?thesis by blast
next
  case (Inr u)
  let ?cols = "filter (\<lambda>(col, t). np_number t) (columns df)"
  let ?W = "map (\<lambda>(col, t). non_numeric_warning col)
              (filter (\<lambda>(col, t). np_number t \<and> \<not> is_numeric_dtype t) (columns df))"
  let ?head = "[UI Page Markdown ''### Statistiques descriptives'',
                UI Page Write ''final_df.describe(include=all)'']"
  show ?thesis
  proof (cases "?cols = []")
    case True
    then have W: "?W = []" by (auto simp: filter_empty_conv)
    from True Inr assms have "r = None"
      and "ui st' = ui st @ (?head @ [UI Page Info ''Aucune variable numerique a visualiser.''])"
      by (auto simp: analysis_tab_def emit_def Let_def)
    with W have "ui st' = ui st @ (?head @ [UI Page Info ''Aucune variable numerique a visualiser.''])
       \<and> prefix (filter is_warning (?head @ [UI Page Info ''Aucune variable numerique a visualiser.''])) ?W
       \<and> (r = None \<longrightarrow>
            filter is_warning (?head @ [UI Page Info ''Aucune variable numerique a visualiser.'']) = ?W)"
      by (simp add: is_warning_def)
    then show ?thesis by blast
  next
    case False
    let ?st2 = "emit (UI Page Markdown ''### Distribution des variables numeriques'')
                  (emit (UI Page Write ''final_df.describe(include=all)'')
                    (emit (UI Page Markdown ''### Statistiques descriptives'') st))"
    from False Inr assms have "plot_columns env df ?cols ?st2 = (r, st')"
      by (simp add: analysis_tab_def Let_def)
    from plot_columns_ui [OF this] obtain new where
      new: "ui st' = ui ?st2 @ new"
        "prefix (filter is_warning new) ?W"
        "r = None \<longrightarrow> filter is_warning new = ?W"
      unfolding rejected_number_columns by blast
    let ?all = "?head @ UI Page Markdown ''### Distribution des variables numeriques'' # new"
    from new have "ui st' = ui st @ ?all \<and> prefix (filter is_warning ?all) ?W
       \<and> (r = None \<longrightarrow> filter is_warning ?all = ?W)"
      by (simp add: emit_def is_warning_def)
    then show ?thesis by blast
  qed
qed

lemma analysis_tab_duration:
  "analysis_tab example_env (Some duration_frame) initial_state =
     (None, initial_state
        \<lparr>ui := [UI Page Markdown ''### Statistiques descriptives'',
                UI Page Write ''final_df.describe(include=all)'',
                UI Page Markdown ''### Distribution des variables numeriques'',
                non_numeric_warning ''delay'']\<rparr>)"
  by (simp add: analysis_tab_def duration_frame_def example_env_def empty_def np_number_def
      is_numeric_dtype_def emit_def initial_state_def)

lemma analysis_tab_gap:
  "analysis_tab failing_plot_env (Some gap_frame) initial_state =
     (Some (ValueError ''no data to plot''), initial_state
        \<lparr>ui := [UI Page Markdown ''### Statistiques descriptives'',
                UI Page Write ''final_df.describe(include=all)'',
                UI Page Markdown ''### Distribution des variables numeriques'']\<rparr>)"
  by (simp add: analysis_tab_def gap_frame_def failing_plot_env_def example_env_def empty_def
      np_number_def is_numeric_dtype_def emit_def initial_state_def)

theorem analysis_tab_warnings_witness:
  "\<not> empty duration_frame
   \<and> analysis_tab example_env (Some duration_frame) initial_state =
       (None, initial_state
          \<lparr>ui := [UI Page Markdown ''### Statistiques descriptives'',
                  UI Page Write ''final_df.describe(include=all)'',
                  UI Page Markdown ''### Distribution des variables numeriques'',
                  non_numeric_warning ''delay'']\<rparr>)
   \<and> (\<exists>new. [UI Page Markdown ''### Statistiques descriptives'',
              UI Page Write ''final_df.describe(include=all)'',
              UI Page Markdown ''### Distribution des variables numeriques'',
              non_numeric_warning ''delay''] = [] @ new
        \<and> filter is_warning new = [non_numeric_warning ''delay''])
   \<and> \<not> empty gap_frame
   \<and> analysis_tab failing_plot_env (Some gap_frame) initial_state =
       (Some (ValueError ''no data to plot''), initial_state
          \<lparr>ui := [UI Page Markdown ''### Statistiques descriptives'',
                  UI Page Write ''final_df.describe(include=all)'',
                  UI Page Markdown ''### Distribution des variables numeriques'']\<rparr>)
   \<and> (\<exists>new. [UI Page Markdown ''### Statistiques descriptives'',
              UI Page Write ''final_df.describe(include=all)'',
              UI Page Markdown ''### Distribution des variables numeriques''] = [] @ new
        \<and> prefix (filter is_warning new) [non_numeric_warning ''delay''])"
proof -
  have ne: "\<not> empty duration_frame" by (simp add: empty_def duration_frame_def)
  have ne': "\<not> empty gap_frame" by (simp add: empty_def gap_frame_def)
  from analysis_tab_warnings [OF ne analysis_tab_duration]
  have 1: "\<exists>new. [UI Page Markdown ''### Statistiques descriptives'',
              UI Page Write ''final_df.describe(include=all)'',
              UI Page Markdown ''### Distribution des variables numeriques'',
              non_numeric_warning ''delay''] = [] @ new
        \<and> filter is_warning new = [non_numeric_warning ''delay'']"
    by (simp add: duration_frame_def np_number_def is_numeric_dtype_def initial_state_def)
  from analysis_tab_warnings [OF ne' analysis_tab_gap]
  have 2: "\<exists>new. [UI Page Markdown ''### Statistiques descriptives'',
              UI Page Write ''final_df.describe(include=all)'',
              UI Page Markdown ''### Distribution des variables numeriques''] = [] @ new
        \<and> prefix (filter is_warning new) [non_numeric_warning ''delay'']"
    by (simp add: gap_frame_def np_number_def is_numeric_dtype_def initial_state_def)
  from ne ne' 1 2 analysis_tab_duration analysis_tab_gap show ?thesis by simp
qed

end
